theory Spec2Isabelle
  imports Complex_Main "HOL-Library.Multiset" "HOL-Library.Log_Nat"
begin

section \<open>Values of the clothing-rental backend\<close>

text \<open>
  Document identifiers (MongoDB ObjectIds, handled by the routes in their string form) are
  strings, compared for equality; every identifier is taken to be well formed, so the cast
  of a malformed one is left out. A JavaScript string is a list of code units below 256
  (Latin-1); a Date is its time value, the milliseconds since the epoch.
\<close>

type_synonym objectId = string
type_synonym date = int

section \<open>JavaScript numbers\<close>

text \<open>
  A Number is an IEEE 754 binary64 value: a finite value, carried by the rational it
  denotes, one of the two infinities, or \<^verbatim>\<open>NaN\<close>. The two zeros are one value here: no
  route below divides, so the sign of a zero is never read.
\<close>

datatype number = Num rat | Infinity | NegInfinity | NaN

text \<open>The power \<open>2 ^ k\<close> for an integer \<open>k\<close>, and the binade of a positive rational.\<close>

definition pow2 :: "int \<Rightarrow> rat" where
  "pow2 k = (if 0 \<le> k then 2 ^ nat k else 1 / 2 ^ nat (- k))"

definition ilog2 :: "rat \<Rightarrow> int" where
  "ilog2 x =
     (let (a, b) = quotient_of x;
          k = bitlen a - bitlen b
      in if pow2 k \<le> x then k else k - 1)"

text \<open>Rounding to the nearest integer, a tie to the even one.\<close>

definition round_half_even :: "rat \<Rightarrow> int" where
  "round_half_even y =
     (let n = \<lfloor>y\<rfloor>; f = y - of_int n in
      if f < 1 / 2 then n else if 1 / 2 < f then n + 1 else if even n then n else n + 1)"

text \<open>
  The binary64 value of an exact result, in the rounding mode of JavaScript (to nearest,
  ties to even): the significand has 53 bits, the exponent of a normal value is at least
  \<open>- 1022\<close> (below it the values are the multiples of \<open>2 ^ - 1074\<close>), and a result that
  rounds to \<open>2 ^ 1024\<close> or beyond is an infinity. A decimal literal of the source is the
  double of the rational it spells: \<^verbatim>\<open>0.08\<close> is \<open>double (8 / 100)\<close>.
\<close>

definition double :: "rat \<Rightarrow> number" where
  "double x =
     (if x = 0 then Num 0
      else let e = max (ilog2 \<bar>x\<bar>) (- 1022);
               q = pow2 (e - 52);
               n = round_half_even (x / q)
           in if 1024 \<le> e \<or> (e = 1023 \<and> \<bar>n\<bar> = 2 ^ 53)
              then (if 0 < x then Infinity else NegInfinity)
              else Num (of_int n * q))"

text \<open>The operators \<^verbatim>\<open>*\<close> and \<^verbatim>\<open>+\<close> on Numbers.\<close>

fun num_mul :: "number \<Rightarrow> number \<Rightarrow> number" where
  "num_mul NaN y = NaN"
| "num_mul x NaN = NaN"
| "num_mul (Num a) (Num b) = double (a * b)"
| "num_mul (Num a) Infinity = (if a = 0 then NaN else if 0 < a then Infinity else NegInfinity)"
| "num_mul (Num a) NegInfinity = (if a = 0 then NaN else if 0 < a then NegInfinity else Infinity)"
| "num_mul Infinity (Num b) = (if b = 0 then NaN else if 0 < b then Infinity else NegInfinity)"
| "num_mul NegInfinity (Num b) = (if b = 0 then NaN else if 0 < b then NegInfinity else Infinity)"
| "num_mul Infinity Infinity = Infinity"
| "num_mul Infinity NegInfinity = NegInfinity"
| "num_mul NegInfinity Infinity = NegInfinity"
| "num_mul NegInfinity NegInfinity = Infinity"

fun num_add :: "number \<Rightarrow> number \<Rightarrow> number" where
  "num_add NaN y = NaN"
| "num_add x NaN = NaN"
| "num_add (Num a) (Num b) = double (a + b)"
| "num_add (Num a) Infinity = Infinity"
| "num_add (Num a) NegInfinity = NegInfinity"
| "num_add Infinity (Num b) = Infinity"
| "num_add NegInfinity (Num b) = NegInfinity"
| "num_add Infinity Infinity = Infinity"
| "num_add Infinity NegInfinity = NaN"
| "num_add NegInfinity Infinity = NaN"
| "num_add NegInfinity NegInfinity = NegInfinity"

text \<open>The comparisons \<^verbatim>\<open>a > b\<close> and \<^verbatim>\<open>a >= b\<close>: false as soon as one side is \<^verbatim>\<open>NaN\<close>.\<close>

fun num_gt :: "number \<Rightarrow> number \<Rightarrow> bool" where
  "num_gt NaN y = False"
| "num_gt x NaN = False"
| "num_gt (Num a) (Num b) = (b < a)"
| "num_gt (Num a) Infinity = False"
| "num_gt (Num a) NegInfinity = True"
| "num_gt Infinity (Num b) = True"
| "num_gt NegInfinity (Num b) = False"
| "num_gt Infinity Infinity = False"
| "num_gt Infinity NegInfinity = True"
| "num_gt NegInfinity Infinity = False"
| "num_gt NegInfinity NegInfinity = False"

fun num_ge :: "number \<Rightarrow> number \<Rightarrow> bool" where
  "num_ge NaN y = False"
| "num_ge x NaN = False"
| "num_ge x y = (num_gt x y \<or> x = y)"

text \<open>
  The operators \<^verbatim>\<open>$gte\<close> and \<^verbatim>\<open>$lte\<close> of a MongoDB query on a numeric path: the order of
  the numbers, with \<^verbatim>\<open>NaN\<close> matching \<^verbatim>\<open>NaN\<close> and nothing else.
\<close>

definition query_gte :: "number \<Rightarrow> number \<Rightarrow> bool" where
  "query_gte x bound = (if x = NaN \<or> bound = NaN then x = NaN \<and> bound = NaN else num_ge x bound)"

definition query_lte :: "number \<Rightarrow> number \<Rightarrow> bool" where
  "query_lte x bound = (if x = NaN \<or> bound = NaN then x = NaN \<and> bound = NaN else num_ge bound x)"

section \<open>Slugs (the Product and Category schemas, src/unnamed/part_002)\<close>

text \<open>The character class \<^verbatim>\<open>[a-z0-9]\<close> of the slug regular expression.\<close>

definition is_alnum :: "char \<Rightarrow> bool" where
  "is_alnum c =
     (let n = (of_char c :: nat) in (97 \<le> n \<and> n \<le> 122) \<or> (48 \<le> n \<and> n \<le> 57))"

text \<open>
  \<^verbatim>\<open>String.prototype.toLowerCase\<close> on one code unit below 256: \<^verbatim>\<open>A-Z\<close> and the
  Latin-1 capitals (192 to 222 without the multiplication sign 215) move up by 32, every
  other code unit stays.
\<close>

definition toLowerCase_char :: "char \<Rightarrow> char" where
  "toLowerCase_char c =
     (let n = (of_char c :: nat) in
      if (65 \<le> n \<and> n \<le> 90) \<or> (192 \<le> n \<and> n \<le> 222 \<and> n \<noteq> 215)
      then char_of (n + 32) else c)"

definition toLowerCase :: "string \<Rightarrow> string" where
  "toLowerCase s = map toLowerCase_char s"

text \<open>\<^verbatim>\<open>.replace(/[^a-z0-9]+/g, '-')\<close>: every maximal run of other characters becomes one hyphen.\<close>

function replace_non_alnum :: "string \<Rightarrow> string" where
  "replace_non_alnum [] = []"
| "replace_non_alnum (c # cs) =
     (if is_alnum c then c # replace_non_alnum cs
      else CHR ''-'' # replace_non_alnum (dropWhile (\<lambda>x. \<not> is_alnum x) cs))"
  by pat_completeness auto
termination
  by (relation "measure length") (auto simp: less_Suc_eq_le length_dropWhile_le)

text \<open>
  \<^verbatim>\<open>.replace(/(^-|-$)/g, '')\<close>: one hyphen at the start and one hyphen at the end are
  removed.
\<close>

definition strip_hyphens :: "string \<Rightarrow> string" where
  "strip_hyphens s =
     (let s1 = (case s of [] \<Rightarrow> [] | c # cs \<Rightarrow> if c = CHR ''-'' then cs else s)
      in if s1 \<noteq> [] \<and> last s1 = CHR ''-'' then butlast s1 else s1)"

definition baseSlug :: "string \<Rightarrow> string" where
  "baseSlug name = strip_hyphens (replace_non_alnum (toLowerCase name))"

text \<open>The decimal text of a counter, as the template literal \<^verbatim>\<open>`${baseSlug}-${counter}`\<close> prints it.\<close>

fun dec :: "nat \<Rightarrow> string" where
  "dec n = (if n < 10 then [char_of (48 + n)] else dec (n div 10) @ [char_of (48 + n mod 10)])"

declare dec.simps [simp del]

text \<open>The value a decimal text denotes; it reads back what \<open>dec\<close> prints.\<close>

definition undec :: "string \<Rightarrow> nat" where
  "undec s = foldl (\<lambda>a c. 10 * a + (of_char c - 48)) 0 s"

lemma undec_snoc: "undec (s @ [c]) = 10 * undec s + (of_char c - 48)"
  by (simp add: undec_def)

lemma undec_dec: "undec (dec n) = n"
proof (induction n rule: dec.induct)
  case (1 n)
  show ?case
  proof (cases "n < 10")
    case True
    then show ?thesis
      by (subst dec.simps) (simp add: undec_def)
  next
    case False
    have "n mod 10 < 10" by simp
    then have d: "(of_char (char_of (48 + n mod 10) :: char) :: nat) - 48 = n mod 10"
      by simp
    from False have "undec (dec n) = 10 * undec (dec (n div 10)) + n mod 10"
      by (subst dec.simps) (simp only: if_False undec_snoc d)
    with False "1.IH" show ?thesis by simp
  qed
qed

lemma dec_inj: "dec m = dec n \<Longrightarrow> m = n"
  by (metis undec_dec)

section \<open>Documents and collections\<close>

text \<open>
  A Product document (src/unnamed/part_002), with the fields the routes below read or write.
  \<open>category\<close> and \<open>slug\<close> are optional paths of the schema: \<open>None\<close> is an absent path.
\<close>

record product =
  pid :: objectId
  name :: string
  categories :: "objectId list"
  category :: "objectId option"
  images :: "string list"
  price :: number
  sizes :: "string list"
  color :: string
  isAvailable :: bool
  isFeatured :: bool
  slug :: "string option"
  views :: nat

text \<open>An embedded order item and an Order document (src/unnamed/part_001).\<close>

record order_item =
  item_product :: objectId
  item_quantity :: number
  item_rentalDuration :: number
  item_price :: number
  item_totalPrice :: number

record address =
  addr_name :: string
  addr_phone :: string
  addr_street :: string
  addr_city :: string
  addr_state :: string
  addr_zipCode :: string
  addr_country :: string

record order =
  oid :: objectId
  user :: "objectId option"
  isGuestOrder :: bool
  items :: "order_item list"
  shippingAddress :: address
  paymentMethod :: string
  paymentStatus :: string
  orderStatus :: string
  subtotal :: number
  shippingCost :: number
  tax :: number
  totalAmount :: number
  orderNumber :: "string option"
  rentalStartDate :: date
  rentalEndDate :: date
  needDate :: date
  customerNotes :: "string option"
  adminNotes :: "string option"

text \<open>
  The database: the Product and Order collections, and the identifiers of the Category and
  User documents (the routes below only ask whether one exists).
\<close>

record store =
  products :: "product list"
  orders :: "order list"
  categoryIds :: "objectId list"
  userIds :: "objectId list"

text \<open>The verified identity the access gate attaches to a request: \<^verbatim>\<open>req.user\<close>.\<close>

record requester =
  uid :: objectId
  role :: string

text \<open>
  What a route answers when it does not succeed: 400 with the list of field violations,
  400 with a message, 403, 404, and the 500 of the \<^verbatim>\<open>catch\<close> block.
\<close>

datatype failure =
    ValidationErrors "string list"
  | BadRequest string
  | Forbidden string
  | NotFound string
  | ServerError string

text \<open>What a Mongoose call throws.\<close>

datatype exn = ValidationError | DuplicateKey string | DocumentNotFound

definition findProduct :: "product list \<Rightarrow> objectId \<Rightarrow> product option" where
  "findProduct ps i = find (\<lambda>p. pid p = i) ps"

definition findOrder :: "order list \<Rightarrow> objectId \<Rightarrow> order option" where
  "findOrder ords i = find (\<lambda>d. oid d = i) ords"

section \<open>Saving a Product (the hooks of src/unnamed/part_002)\<close>

text \<open>
  \<^verbatim>\<open>findOne({ slug: slug, _id: { $ne: this._id } })\<close> finds a document: another product
  holds the slug.
\<close>

definition slug_taken :: "product list \<Rightarrow> objectId \<Rightarrow> string \<Rightarrow> bool" where
  "slug_taken ps self s = (\<exists>q \<in> set ps. slug q = Some s \<and> pid q \<noteq> self)"

lemma finite_suffixes_taken: "finite {k. slug_taken ps self (b @ ''-'' @ dec k)}"
proof -
  let ?f = "\<lambda>k. Some (b @ ''-'' @ dec k)"
  have "inj ?f"
    by (auto simp: inj_on_def dest: dec_inj)
  then have "finite (?f -` (slug ` set ps))"
    by (intro finite_vimageI) simp_all
  moreover have "{k. slug_taken ps self (b @ ''-'' @ dec k)} \<subseteq> ?f -` (slug ` set ps)"
    by (auto simp: slug_taken_def image_iff) metis
  ultimately show ?thesis
    by (rule rev_finite_subset)
qed

text \<open>
  The probing loop of the slug hook: \<^verbatim>\<open>while (true)\<close> with the current candidate and the
  counter as its state. It leaves the loop at the first candidate no other product holds.
\<close>

function uniqueSlug :: "product list \<Rightarrow> objectId \<Rightarrow> string \<Rightarrow> string \<Rightarrow> nat \<Rightarrow> string" where
  "uniqueSlug ps self b s counter =
     (if slug_taken ps self s then uniqueSlug ps self b (b @ ''-'' @ dec counter) (counter + 1)
      else s)"
  by pat_completeness auto
termination
proof (relation "measure (\<lambda>(ps, self, b, s, counter).
    card {k. counter \<le> k \<and> slug_taken ps self (b @ ''-'' @ dec k)}
    + (if slug_taken ps self s then 1 else 0))", goal_cases)
  case 1
  show ?case by simp
next
  case (2 ps self b s counter)
  let ?T = "\<lambda>c. {k. c \<le> k \<and> slug_taken ps self (b @ ''-'' @ dec k)}"
  have fin: "finite (?T counter)"
    by (rule finite_subset [OF _ finite_suffixes_taken [of ps self b]]) auto
  have "card (?T (counter + 1)) + (if slug_taken ps self (b @ ''-'' @ dec counter) then 1 else 0)
      = card (?T counter)"
  proof (cases "slug_taken ps self (b @ ''-'' @ dec counter)")
    case True
    then have eq: "?T counter = insert counter (?T (counter + 1))"
      by (auto simp: le_Suc_eq)
    have notin: "counter \<notin> ?T (counter + 1)" by simp
    have "finite (?T (counter + 1))"
      by (rule finite_subset [OF _ fin]) auto
    then have "card (insert counter (?T (counter + 1))) = Suc (card (?T (counter + 1)))"
      using notin by (rule card_insert_disjoint)
    then have "card (?T counter) = Suc (card (?T (counter + 1)))"
      by (simp only: eq)
    with True show ?thesis by simp
  next
    case False
    then have "?T counter = ?T (counter + 1)"
      by (auto simp: le_Suc_eq) (metis Suc_leI le_neq_implies_less)
    with False show ?thesis by simp
  qed
  with 2 show ?case by simp
qed

declare uniqueSlug.simps [simp del]

text \<open>
  The schema validators of a Product on the fields kept here; Mongoose runs them before
  the \<^verbatim>\<open>pre('save')\<close> hooks of the schema. The \<open>categories\<close> path demands each element,
  not a non-empty array.
\<close>

definition validate_product :: "product \<Rightarrow> bool" where
  "validate_product p =
     (name p \<noteq> [] \<and> length (name p) \<le> 100 \<and> num_ge (price p) (Num 0) \<and> color p \<noteq> []
      \<and> list_all (\<lambda>c. c \<noteq> []) (categories p)
      \<and> list_all (\<lambda>i. i \<noteq> []) (images p)
      \<and> list_all (\<lambda>z. z \<in> set [''XS'', ''S'', ''M'', ''L'', ''XL'', ''XXL'', ''Free Size'']) (sizes p))"

text \<open>First hook: \<^verbatim>\<open>category\<close> follows the first element of \<^verbatim>\<open>categories\<close>.\<close>

definition syncCategory :: "product \<Rightarrow> product" where
  "syncCategory p =
     (if categories p \<noteq> [] then p\<lparr>category := Some (categories p ! 0)\<rparr> else p)"

text \<open>
  Second hook: the slug, only when \<^verbatim>\<open>this.isModified('name')\<close>. The modified paths of the
  document are an argument. Assigning \<^verbatim>\<open>this.slug\<close> runs the schema's \<^verbatim>\<open>lowercase\<close> setter.
\<close>

definition generateSlug :: "string list \<Rightarrow> product list \<Rightarrow> product \<Rightarrow> product" where
  "generateSlug modified ps p =
     (if ''name'' \<notin> set modified then p
      else let b = baseSlug (name p)
           in p\<lparr>slug := Some (toLowerCase (uniqueSlug ps (pid p) b b 1))\<rparr>)"

text \<open>The sparse unique index on \<^verbatim>\<open>slug\<close>: a write fails when another document holds the slug.\<close>

definition slug_conflict :: "product list \<Rightarrow> product \<Rightarrow> bool" where
  "slug_conflict ps p = (case slug p of None \<Rightarrow> False | Some s \<Rightarrow> slug_taken ps (pid p) s)"

definition upsertProduct :: "product \<Rightarrow> product list \<Rightarrow> product list" where
  "upsertProduct p ps =
     (if \<exists>q \<in> set ps. pid q = pid p then map (\<lambda>q. if pid q = pid p then p else q) ps
      else ps @ [p])"

text \<open>
  The paths a save writes for a document that was loaded: the modified ones,
  \<^verbatim>\<open>category\<close> when the first hook assigned it, and \<^verbatim>\<open>slug\<close> when the second hook did.
  (An assignment of the value a path already holds marks nothing; writing that value
  stores what is stored.)
\<close>

definition savedPaths :: "string list \<Rightarrow> product \<Rightarrow> string list" where
  "savedPaths modified p =
     modified @ (if categories p \<noteq> [] then [''category''] else [])
              @ (if ''name'' \<in> set modified then [''slug''] else [])"

text \<open>
  The update \<^verbatim>\<open>{ $set: ... }\<close> of a stored document \<open>q\<close>: a path of the list takes the value
  the document in memory \<open>p\<close> holds, every other path keeps its stored value.
\<close>

definition writePaths :: "string list \<Rightarrow> product \<Rightarrow> product \<Rightarrow> product" where
  "writePaths paths p q =
     q\<lparr>name := (if ''name'' \<in> set paths then name p else name q),
       categories := (if ''categories'' \<in> set paths then categories p else categories q),
       category := (if ''category'' \<in> set paths then category p else category q),
       images := (if ''images'' \<in> set paths then images p else images q),
       price := (if ''price'' \<in> set paths then price p else price q),
       sizes := (if ''sizes'' \<in> set paths then sizes p else sizes q),
       color := (if ''color'' \<in> set paths then color p else color q),
       isAvailable := (if ''isAvailable'' \<in> set paths then isAvailable p else isAvailable q),
       isFeatured := (if ''isFeatured'' \<in> set paths then isFeatured p else isFeatured q),
       slug := (if ''slug'' \<in> set paths then slug p else slug q),
       views := (if ''views'' \<in> set paths then views p else views q)\<rparr>"

text \<open>
  \<^verbatim>\<open>product.save()\<close> on the document in memory \<open>p\<close>: validation, the two hooks in the order
  of the schema, the write. A new document (\<^verbatim>\<open>isNew\<close>) is inserted whole. For a document
  that was loaded the write is an update of the stored document that sets the saved paths:
  a path that was not modified keeps its stored value, whatever the document in memory
  holds. The call answers the document in memory.
\<close>

definition saveProduct ::
  "bool \<Rightarrow> string list \<Rightarrow> product \<Rightarrow> store \<Rightarrow> exn + (product \<times> store)" where
  "saveProduct isNew modified p st =
     (if \<not> validate_product p then Inl ValidationError
      else let p1 = syncCategory p;
               p2 = generateSlug modified (products st) p1
           in if isNew
              then (if findProduct (products st) (pid p2) \<noteq> None then Inl (DuplicateKey ''_id'')
                    else if slug_conflict (products st) p2 then Inl (DuplicateKey ''slug'')
                    else Inr (p2, st\<lparr>products := products st @ [p2]\<rparr>))
              else (case findProduct (products st) (pid p2) of
                      None \<Rightarrow> Inl DocumentNotFound
                    | Some q \<Rightarrow>
                        let q' = writePaths (savedPaths modified p) p2 q
                        in if slug_conflict (products st) q' then Inl (DuplicateKey ''slug'')
                           else Inr (p2, st\<lparr>products := upsertProduct q' (products st)\<rparr>)))"

text \<open>
  The sequence the specification names for the probing: \<open>base\<close>, \<open>base-1\<close>, \<open>base-2\<close>, ...
\<close>

fun candidate :: "string \<Rightarrow> nat \<Rightarrow> string" where
  "candidate b 0 = b"
| "candidate b (Suc k) = b @ ''-'' @ dec (Suc k)"

subsection \<open>Facts about slugs\<close>

lemma uniqueSlug_free: "\<not> slug_taken ps self (uniqueSlug ps self b s counter)"
  by (induction ps self b s counter rule: uniqueSlug.induct)
     (subst uniqueSlug.simps, simp)

lemma uniqueSlug_first:
  "counter = Suc c \<Longrightarrow> s = candidate b c \<Longrightarrow>
   \<exists>j\<ge>c. uniqueSlug ps self b s counter = candidate b j
        \<and> (\<forall>i. c \<le> i \<and> i < j \<longrightarrow> slug_taken ps self (candidate b i))"
proof (induction ps self b s counter arbitrary: c rule: uniqueSlug.induct)
  case (1 ps self b s counter)
  show ?case
  proof (cases "slug_taken ps self s")
    case False
    then have "uniqueSlug ps self b s counter = candidate b c"
      using "1.prems" by (subst uniqueSlug.simps) simp
    then show ?thesis by auto
  next
    case True
    have step: "uniqueSlug ps self b s counter
        = uniqueSlug ps self b (b @ ''-'' @ dec counter) (counter + 1)"
      using True by (subst uniqueSlug.simps) simp
    have "b @ ''-'' @ dec counter = candidate b (Suc c)"
      using "1.prems" by simp
    from "1.IH" [OF True _ this] "1.prems"
    obtain j where j: "Suc c \<le> j"
        "uniqueSlug ps self b (b @ ''-'' @ dec counter) (counter + 1) = candidate b j"
        "\<forall>i. Suc c \<le> i \<and> i < j \<longrightarrow> slug_taken ps self (candidate b i)"
      by auto
    have "\<forall>i. c \<le> i \<and> i < j \<longrightarrow> slug_taken ps self (candidate b i)"
    proof (intro allI impI)
      fix i assume "c \<le> i \<and> i < j"
      then consider "i = c" | "Suc c \<le> i \<and> i < j" by linarith
      then show "slug_taken ps self (candidate b i)"
        using True "1.prems" j(3) by cases auto
    qed
    with j(1,2) step show ?thesis
      by (metis Suc_leD)
  qed
qed

section \<open>Product routes (src/routes/products.js)\<close>

text \<open>
  A handler is modelled from the point where the access gate has let the request through.
  What lies outside the handler is an argument: the verdict of express-validator on the
  body (\<^verbatim>\<open>validationResult(req)\<close>, the list of field violations), the identifier Mongoose
  gives a new document, the image store, and the ordering, text search and regular
  expression matching of the database.
\<close>

record env =
  now :: date
  tzOffset :: int
  fullYear :: nat
  monthIndex :: nat
  dayOfMonth :: nat
  random1000 :: nat
  newId :: objectId
  upload :: "string \<Rightarrow> string option"

record engine =
  sortBy :: "string \<Rightarrow> string \<Rightarrow> product list \<Rightarrow> product list"
  textSearch :: "string \<Rightarrow> product \<Rightarrow> bool"
  regexI :: "string \<Rightarrow> string \<Rightarrow> bool"

text \<open>
  An entry of a \<^verbatim>\<open>categories\<close> array of a body: \<open>None\<close> is \<^verbatim>\<open>null\<close> or \<^verbatim>\<open>undefined\<close>. The
  callback \<^verbatim>\<open>categoryId => categoryId && categoryId !== null && categoryId !== undefined\<close>
  keeps the truthy entries, so it also drops the empty string.
\<close>

definition truthy_id :: "objectId option \<Rightarrow> bool" where
  "truthy_id c = (case c of None \<Rightarrow> False | Some i \<Rightarrow> i \<noteq> [])"

definition ids_of :: "objectId option list \<Rightarrow> objectId list" where
  "ids_of cs = concat (map (\<lambda>c. case c of None \<Rightarrow> [] | Some i \<Rightarrow> [i]) cs)"

definition filterCategories :: "objectId option list \<Rightarrow> objectId option list" where
  "filterCategories cs = filter truthy_id cs"

definition startsWith :: "string \<Rightarrow> string \<Rightarrow> bool" where
  "startsWith s pre = (take (length pre) s = pre)"

text \<open>The upload loop: an image given as a data URL goes to the image store, which may fail.\<close>

fun uploadImages :: "(string \<Rightarrow> string option) \<Rightarrow> string list \<Rightarrow> string list option" where
  "uploadImages up [] = Some []"
| "uploadImages up (img # rest) =
     (if startsWith img ''data:image''
      then (case up img of None \<Rightarrow> None
            | Some url \<Rightarrow> map_option (\<lambda>r. url # r) (uploadImages up rest))
      else map_option (\<lambda>r. img # r) (uploadImages up rest))"

record product_body =
  b_errors :: "string list"
  b_name :: string
  b_categories :: "objectId option list"
  b_images :: "string list"
  b_price :: number
  b_sizes :: "string list"
  b_color :: string
  b_isFeatured :: "bool option"

text \<open>The \<^verbatim>\<open>catch\<close> block of the two writing product routes.\<close>

definition productWriteError :: "string \<Rightarrow> exn \<Rightarrow> failure" where
  "productWriteError msg e =
     (case e of
        DuplicateKey field \<Rightarrow>
          if field = ''slug''
          then BadRequest ''A product with this name already exists. Please use a different name.''
          else BadRequest (''Duplicate '' @ field @ '' value. Please use a different '' @ field @ ''.'')
      | _ \<Rightarrow> ServerError msg)"

text \<open>
  \<^verbatim>\<open>new Product({ ... })\<close> in the create route: the fields of the body, the defaults of the
  schema, \<^verbatim>\<open>isFeatured || false\<close>, and no \<^verbatim>\<open>category\<close> or \<^verbatim>\<open>slug\<close> yet.
\<close>

definition newProduct :: "env \<Rightarrow> product_body \<Rightarrow> objectId list \<Rightarrow> string list \<Rightarrow> product" where
  "newProduct e body filteredCategories uploadedImages =
     \<lparr>pid = newId e, name = b_name body, categories = filteredCategories,
      category = None, images = uploadedImages, price = b_price body,
      sizes = b_sizes body, color = b_color body, isAvailable = True,
      isFeatured = (b_isFeatured body = Some True), slug = None, views = 0\<rparr>"

text \<open>POST /api/products.\<close>

definition createProduct :: "env \<Rightarrow> product_body \<Rightarrow> store \<Rightarrow> (failure + product) \<times> store" where
  "createProduct e body st =
     (if b_errors body \<noteq> [] then (Inl (ValidationErrors (b_errors body)), st)
      else let filteredCategories = ids_of (filterCategories (b_categories body)) in
        if length filteredCategories = 0
        then (Inl (BadRequest ''At least one category is required''), st)
        else case find (\<lambda>c. c \<notin> set (categoryIds st)) filteredCategories of
          Some c \<Rightarrow> (Inl (BadRequest (''Category with ID '' @ c @ '' not found'')), st)
        | None \<Rightarrow>
           (case uploadImages (upload e) (b_images body) of
              None \<Rightarrow> (Inl (ServerError ''Server error while creating product''), st)
            | Some uploadedImages \<Rightarrow>
               (case saveProduct True
                       [''name'', ''categories'', ''images'', ''price'', ''sizes'', ''color'',
                        ''isFeatured'']
                       (newProduct e body filteredCategories uploadedImages) st of
                  Inl ex \<Rightarrow> (Inl (productWriteError ''Server error while creating product'' ex), st)
                | Inr (saved, st') \<Rightarrow> (Inr saved, st'))))"

text \<open>
  The body of PUT /api/products/:id: every field is optional, and the whole body is what
  \<^verbatim>\<open>findByIdAndUpdate\<close> receives, \<^verbatim>\<open>category\<close> and \<^verbatim>\<open>slug\<close> included when the client sends them.
\<close>

record product_update =
  u_errors :: "string list"
  u_name :: "string option"
  u_categories :: "objectId option list option"
  u_category :: "objectId option"
  u_slug :: "string option"
  u_images :: "string list option"
  u_price :: "number option"
  u_sizes :: "string list option"
  u_color :: "string option"
  u_isAvailable :: "bool option"
  u_isFeatured :: "bool option"

definition or_else :: "'a option \<Rightarrow> 'a \<Rightarrow> 'a" where
  "or_else x d = (case x of None \<Rightarrow> d | Some v \<Rightarrow> v)"

text \<open>The paths of the body written into the document; a path the body lacks keeps its value.\<close>

definition applyUpdate :: "product_update \<Rightarrow> product \<Rightarrow> product" where
  "applyUpdate u p =
     p\<lparr>name := or_else (u_name u) (name p),
       categories := or_else (map_option ids_of (u_categories u)) (categories p),
       category := (case u_category u of None \<Rightarrow> category p | Some c \<Rightarrow> Some c),
       slug := (case u_slug u of None \<Rightarrow> slug p | Some s \<Rightarrow> Some (toLowerCase s)),
       images := or_else (u_images u) (images p),
       price := or_else (u_price u) (price p),
       sizes := or_else (u_sizes u) (sizes p),
       color := or_else (u_color u) (color p),
       isAvailable := or_else (u_isAvailable u) (isAvailable p),
       isFeatured := or_else (u_isFeatured u) (isFeatured p)\<rparr>"

text \<open>\<^verbatim>\<open>runValidators: true\<close>: the schema validators of the paths the update sets.\<close>

definition validate_update :: "product_update \<Rightarrow> bool" where
  "validate_update u =
     ((case u_name u of None \<Rightarrow> True | Some n \<Rightarrow> n \<noteq> [] \<and> length n \<le> 100)
      \<and> (case u_price u of None \<Rightarrow> True | Some v \<Rightarrow> num_ge v (Num 0))
      \<and> (case u_color u of None \<Rightarrow> True | Some c \<Rightarrow> c \<noteq> [])
      \<and> (case u_categories u of None \<Rightarrow> True | Some cs \<Rightarrow> list_all truthy_id cs)
      \<and> (case u_images u of None \<Rightarrow> True | Some imgs \<Rightarrow> list_all (\<lambda>i. i \<noteq> []) imgs)
      \<and> (case u_sizes u of None \<Rightarrow> True
          | Some zs \<Rightarrow> list_all (\<lambda>z. z \<in> set [''XS'', ''S'', ''M'', ''L'', ''XL'', ''XXL'', ''Free Size'']) zs))"

text \<open>
  \<^verbatim>\<open>Product.findByIdAndUpdate(id, body, { new: true, runValidators: true })\<close>: an update
  of the database, which runs no \<^verbatim>\<open>pre('save')\<close> hook. It answers the updated document,
  or \<^verbatim>\<open>null\<close> when there is none.
\<close>

definition findByIdAndUpdate ::
  "objectId \<Rightarrow> product_update \<Rightarrow> store \<Rightarrow> exn + (product option \<times> store)" where
  "findByIdAndUpdate i u st =
     (if \<not> validate_update u then Inl ValidationError
      else case findProduct (products st) i of
        None \<Rightarrow> Inr (None, st)
      | Some p \<Rightarrow>
          let p' = applyUpdate u p in
          if slug_conflict (products st) p' then Inl (DuplicateKey ''slug'')
          else Inr (Some p', st\<lparr>products := upsertProduct p' (products st)\<rparr>))"

text \<open>PUT /api/products/:id.\<close>

definition updateProduct ::
  "env \<Rightarrow> objectId \<Rightarrow> product_update \<Rightarrow> store \<Rightarrow> (failure + product option) \<times> store" where
  "updateProduct e i body st =
     (if u_errors body \<noteq> [] then (Inl (ValidationErrors (u_errors body)), st)
      else case findProduct (products st) i of
        None \<Rightarrow> (Inl (NotFound ''Product not found''), st)
      | Some product \<Rightarrow>
         let filtered = map_option filterCategories (u_categories body) in
         if filtered = Some [] then (Inl (BadRequest ''At least one category is required''), st)
         else (case find (\<lambda>c. c \<notin> set (categoryIds st)) (ids_of (or_else filtered [])) of
           Some c \<Rightarrow> (Inl (BadRequest (''Category with ID '' @ c @ '' not found'')), st)
         | None \<Rightarrow>
            (case (case u_images body of None \<Rightarrow> Some None
                   | Some imgs \<Rightarrow> map_option Some (uploadImages (upload e) imgs)) of
               None \<Rightarrow> (Inl (ServerError ''Server error while updating product''), st)
             | Some uploaded \<Rightarrow>
                (case findByIdAndUpdate i (body\<lparr>u_categories := filtered, u_images := uploaded\<rparr>) st of
                   Inl ex \<Rightarrow> (Inl (productWriteError ''Server error while updating product'' ex), st)
                 | Inr (updatedProduct, st') \<Rightarrow> (Inr updatedProduct, st')))))"

text \<open>
  \<^verbatim>\<open>.populate('category', ...).populate('categories', ...)\<close> on a loaded product: each
  reference is replaced by the Category document it names. A reference to a category that
  no longer exists becomes \<^verbatim>\<open>null\<close> in the single path and is left out of the array. A
  populated path is carried here by the identifier of the document it holds, which is what
  a save writes for it. (The create and the update route populate only the copy they send
  back; their answers are carried by the document as it is stored.)
\<close>

definition populate :: "store \<Rightarrow> product \<Rightarrow> product" where
  "populate st p =
     p\<lparr>category := (case category p of
                       None \<Rightarrow> None
                     | Some c \<Rightarrow> if c \<in> set (categoryIds st) then Some c else None),
       categories := filter (\<lambda>c. c \<in> set (categoryIds st)) (categories p)\<rparr>"

text \<open>
  GET /api/products/:id. The product is loaded and populated. A request that carries an
  identity counts a view and saves the populated document for it: only \<^verbatim>\<open>views\<close> is a
  modified path when the hooks start. (GET /api/products/slug/:slug loads the product by
  its slug and goes on in the same way.)
\<close>

definition getProduct :: "requester option \<Rightarrow> objectId \<Rightarrow> store \<Rightarrow> (failure + product) \<times> store" where
  "getProduct requester i st =
     (case map_option (populate st) (findProduct (products st) i) of
        None \<Rightarrow> (Inl (NotFound ''Product not found''), st)
      | Some product \<Rightarrow>
          if \<not> isAvailable product then (Inl (NotFound ''Product is not available''), st)
          else (case requester of
            None \<Rightarrow> (Inr product, st)
          | Some r \<Rightarrow>
             (case saveProduct False [''views''] (product\<lparr>views := views product + 1\<rparr>) st of
                Inl ex \<Rightarrow> (Inl (ServerError ''Server error while fetching product''), st)
              | Inr (saved, st') \<Rightarrow> (Inr saved, st'))))"

subsection \<open>Deleting a category (src/routes/categories.js)\<close>

text \<open>
  DELETE /api/categories/:id, for an admin. The handler does not ask whether a product
  still names the category (that check is commented out in the source); the clean-up of the
  image does not change the answer.
\<close>

definition deleteCategory :: "objectId \<Rightarrow> store \<Rightarrow> (failure + unit) \<times> store" where
  "deleteCategory i st =
     (if i \<notin> set (categoryIds st) then (Inl (NotFound ''Category not found''), st)
      else (Inr (), st\<lparr>categoryIds := removeAll i (categoryIds st)\<rparr>))"

subsection \<open>Listing\<close>

text \<open>
  The query string of GET /api/products. \<open>q_page\<close> and \<open>q_limit\<close> are the numbers the
  handler computes with (defaults 1 and 12); a text parameter is \<open>None\<close> when it is missing,
  and a price bound is the number \<^verbatim>\<open>parseFloat\<close> reads from a non-empty parameter.
\<close>

record product_query =
  q_page :: nat
  q_limit :: nat
  q_category :: "string option"
  q_search :: "string option"
  q_minPrice :: "number option"
  q_maxPrice :: "number option"
  q_size :: "string option"
  q_color :: "string option"
  q_sort :: string
  q_order :: string
  q_featured :: "string option"

definition truthy :: "string option \<Rightarrow> bool" where
  "truthy x = (case x of None \<Rightarrow> False | Some v \<Rightarrow> v \<noteq> [])"

text \<open>
  The filter object the handler builds, read as the predicate MongoDB evaluates on a
  document: \<^verbatim>\<open>$or: [{ category: c }, { categories: c }]\<close> holds when the legacy field equals
  \<open>c\<close> or the array contains \<open>c\<close>.
\<close>

definition categoryMatch :: "objectId \<Rightarrow> product \<Rightarrow> bool" where
  "categoryMatch c p = (category p = Some c \<or> c \<in> set (categories p))"

definition productFilter :: "engine \<Rightarrow> product_query \<Rightarrow> product \<Rightarrow> bool" where
  "productFilter g q p =
     (isAvailable p
      \<and> (if truthy (q_category q) then categoryMatch (the (q_category q)) p else True)
      \<and> (if truthy (q_search q) then textSearch g (the (q_search q)) p else True)
      \<and> (case q_minPrice q of None \<Rightarrow> True | Some v \<Rightarrow> query_gte (price p) v)
      \<and> (case q_maxPrice q of None \<Rightarrow> True | Some v \<Rightarrow> query_lte (price p) v)
      \<and> (if truthy (q_size q) then the (q_size q) \<in> set (sizes p) else True)
      \<and> (if truthy (q_color q) then regexI g (the (q_color q)) (color p) else True)
      \<and> (if q_featured q = Some ''true'' then isFeatured p else True))"

text \<open>
  \<^verbatim>\<open>.sort(sortOptions).limit(limit * 1).skip((page - 1) * limit)\<close>: the database skips, then
  limits; a limit of 0 is no limit, and a negative skip is an error of the database.
\<close>

definition paginate :: "nat \<Rightarrow> nat \<Rightarrow> 'a list \<Rightarrow> 'a list option" where
  "paginate page limit xs =
     (let skip = (int page - 1) * int limit in
      if skip < 0 then None
      else Some ((if limit = 0 then (\<lambda>ys. ys) else take limit) (drop (nat skip) xs)))"

text \<open>\<^verbatim>\<open>Math.ceil(total / limit)\<close>; with a limit of 0 the quotient is not a finite number.\<close>

definition totalPages :: "nat \<Rightarrow> nat \<Rightarrow> nat option" where
  "totalPages n limit = (if limit = 0 then None else Some ((n + limit - 1) div limit))"

record product_page =
  r_products :: "product list"
  r_totalPages :: "nat option"
  r_currentPage :: nat
  r_total :: nat

definition incrementViews :: "objectId list \<Rightarrow> product list \<Rightarrow> product list" where
  "incrementViews ids ps = map (\<lambda>p. if pid p \<in> set ids then p\<lparr>views := views p + 1\<rparr> else p) ps"

text \<open>GET /api/products.\<close>

definition listProducts ::
  "engine \<Rightarrow> requester option \<Rightarrow> product_query \<Rightarrow> store \<Rightarrow> (failure + product_page) \<times> store" where
  "listProducts g requester q st =
     (let found = filter (productFilter g q) (products st) in
      case paginate (q_page q) (q_limit q) (sortBy g (q_sort q) (q_order q) found) of
        None \<Rightarrow> (Inl (ServerError ''Server error while fetching products''), st)
      | Some page \<Rightarrow>
          (Inr \<lparr>r_products = page, r_totalPages = totalPages (length found) (q_limit q),
                r_currentPage = q_page q, r_total = length found\<rparr>,
           if requester \<noteq> None
           then st\<lparr>products := incrementViews (map pid page) (products st)\<rparr> else st))"

text \<open>GET /api/products/category/:categoryId.\<close>

definition listProductsByCategory ::
  "engine \<Rightarrow> objectId \<Rightarrow> product_query \<Rightarrow> store \<Rightarrow> failure + product_page" where
  "listProductsByCategory g categoryId q st =
     (let found = filter (\<lambda>p. categoryMatch categoryId p \<and> isAvailable p) (products st) in
      case paginate (q_page q) (q_limit q) (sortBy g (q_sort q) (q_order q) found) of
        None \<Rightarrow> Inl (ServerError ''Server error while fetching products'')
      | Some page \<Rightarrow>
          Inr \<lparr>r_products = page, r_totalPages = totalPages (length found) (q_limit q),
               r_currentPage = q_page q, r_total = length found\<rparr>)"

section \<open>Saving an Order (the hook of src/unnamed/part_001)\<close>

text \<open>
  \<^verbatim>\<open>String.prototype.trim\<close>, the setter of the \<^verbatim>\<open>trim: true\<close> paths, on code units below 256:
  tab, line feed, vertical tab, form feed, carriage return, space and no-break space.
\<close>

definition is_space :: "char \<Rightarrow> bool" where
  "is_space c = ((of_char c :: nat) \<in> set [9, 10, 11, 12, 13, 32, 160])"

definition trim :: "string \<Rightarrow> string" where
  "trim s = rev (dropWhile is_space (rev (dropWhile is_space s)))"

text \<open>\<^verbatim>\<open>padStart(n, '0')\<close> and \<^verbatim>\<open>slice(-2)\<close>.\<close>

definition padStart :: "nat \<Rightarrow> string \<Rightarrow> string" where
  "padStart n s = replicate (n - length s) CHR ''0'' @ s"

definition lastTwo :: "string \<Rightarrow> string" where
  "lastTwo s = drop (length s - 2) s"

text \<open>
  The order number of the \<^verbatim>\<open>pre('save')\<close> hook. The calendar fields of the clock and the
  random number below 1000 come from the environment.
\<close>

definition generateOrderNumber :: "env \<Rightarrow> string" where
  "generateOrderNumber e =
     ''ORD'' @ lastTwo (dec (fullYear e)) @ padStart 2 (dec (monthIndex e + 1))
       @ padStart 2 (dec (dayOfMonth e)) @ padStart 3 (dec (random1000 e))"

text \<open>
  The schema validators of an Order on the fields kept here. A Number path refuses
  \<^verbatim>\<open>NaN\<close> (the cast of Mongoose fails on it) and takes an infinity; \<^verbatim>\<open>min: 1\<close> compares
  as \<^verbatim>\<open>>=\<close> does.
\<close>

definition validate_address :: "address \<Rightarrow> bool" where
  "validate_address a =
     (addr_name a \<noteq> [] \<and> addr_phone a \<noteq> [] \<and> addr_street a \<noteq> [] \<and> addr_city a \<noteq> []
      \<and> addr_state a \<noteq> [] \<and> addr_zipCode a \<noteq> [] \<and> addr_country a \<noteq> [])"

definition validate_item :: "order_item \<Rightarrow> bool" where
  "validate_item i =
     (item_product i \<noteq> [] \<and> num_ge (item_quantity i) (Num 1)
      \<and> num_ge (item_rentalDuration i) (Num 1)
      \<and> item_price i \<noteq> NaN \<and> item_totalPrice i \<noteq> NaN)"

definition validate_order :: "order \<Rightarrow> bool" where
  "validate_order d =
     (list_all validate_item (items d)
      \<and> subtotal d \<noteq> NaN \<and> shippingCost d \<noteq> NaN \<and> tax d \<noteq> NaN \<and> totalAmount d \<noteq> NaN
      \<and> validate_address (shippingAddress d)
      \<and> paymentMethod d \<in> set [''Credit Card'', ''Debit Card'', ''PayPal'', ''Cash on Delivery'']
      \<and> paymentStatus d \<in> set [''Pending'', ''Paid'', ''Failed'', ''Refunded'']
      \<and> orderStatus d \<in> set [''Pending'', ''Confirmed'', ''Processing'', ''Shipped'', ''Delivered'',
                               ''Returned'', ''Cancelled''])"

definition upsertOrder :: "order \<Rightarrow> order list \<Rightarrow> order list" where
  "upsertOrder d ds =
     (if \<exists>q \<in> set ds. oid q = oid d then map (\<lambda>q. if oid q = oid d then d else q) ds
      else ds @ [d])"

text \<open>The unique index on \<^verbatim>\<open>orderNumber\<close>: another document holds the same value.\<close>

definition number_conflict :: "order list \<Rightarrow> order \<Rightarrow> bool" where
  "number_conflict ds d = (\<exists>q \<in> set ds. oid q \<noteq> oid d \<and> orderNumber q = orderNumber d)"

text \<open>
  \<^verbatim>\<open>order.save()\<close>: validation, the hook that numbers a new document (\<^verbatim>\<open>this.isNew\<close>), the
  write.
\<close>

definition saveOrder :: "env \<Rightarrow> bool \<Rightarrow> order \<Rightarrow> store \<Rightarrow> exn + (order \<times> store)" where
  "saveOrder e isNew d st =
     (if \<not> validate_order d then Inl ValidationError
      else let d' = (if \<not> isNew then d else d\<lparr>orderNumber := Some (generateOrderNumber e)\<rparr>)
           in if number_conflict (orders st) d' then Inl (DuplicateKey ''orderNumber'')
              else Inr (d', st\<lparr>orders := upsertOrder d' (orders st)\<rparr>))"

section \<open>Order routes (src/routes/orders.js)\<close>

record req_item =
  rq_product :: objectId
  rq_quantity :: number
  rq_rentalDuration :: number

text \<open>
  The body of an order request, with the verdict of express-validator on it and with its
  three dates as the \<^verbatim>\<open>new Date(...)\<close> of the handler reads them.
\<close>

record order_body =
  ob_errors :: "string list"
  ob_items :: "req_item list"
  ob_shippingAddress :: address
  ob_paymentMethod :: string
  ob_rentalStartDate :: date
  ob_rentalEndDate :: date
  ob_needDate :: date
  ob_notes :: "string option"

text \<open>
  \<^verbatim>\<open>const today = new Date(); today.setHours(0, 0, 0, 0)\<close>: the instant at which the local
  day of the clock began, for a local time that runs \<open>tzOffset\<close> milliseconds ahead of UTC.
\<close>

definition msPerDay :: int where
  "msPerDay = 86400000"

definition startOfToday :: "env \<Rightarrow> date" where
  "startOfToday e = now e - ((now e + tzOffset e) mod msPerDay)"

text \<open>The number of the local calendar day an instant falls on.\<close>

definition localDay :: "env \<Rightarrow> date \<Rightarrow> int" where
  "localDay e t = (t + tzOffset e) div msPerDay"

text \<open>The three date rules, in the order of the handler; the answer of the first one broken.\<close>

definition checkDates :: "env \<Rightarrow> date \<Rightarrow> date \<Rightarrow> date \<Rightarrow> failure option" where
  "checkDates e startDate endDate needDateObj =
     (let today = startOfToday e in
      if startDate < today then Some (BadRequest ''Rental start date cannot be in the past'')
      else if endDate \<le> startDate then Some (BadRequest ''Rental end date must be after start date'')
      else if needDateObj < today then Some (BadRequest ''Need date cannot be in the past'')
      else None)"

text \<open>
  The loop over the items, with \<^verbatim>\<open>orderItems\<close> and \<^verbatim>\<open>subtotal\<close> as its state. The rental
  duration of the request is not read: the line is priced and stored for one day. The
  quantity of an item is the Number that \<^verbatim>\<open>*\<close> reads from the field of the body.
\<close>

fun orderItemsLoop ::
  "product list \<Rightarrow> req_item list \<Rightarrow> order_item list \<Rightarrow> number \<Rightarrow> failure + (order_item list \<times> number)" where
  "orderItemsLoop ps [] orderItems sub = Inr (orderItems, sub)"
| "orderItemsLoop ps (item # rest) orderItems sub =
     (case findProduct ps (rq_product item) of
        None \<Rightarrow> Inl (BadRequest (''Product with ID '' @ rq_product item @ '' not found''))
      | Some product \<Rightarrow>
          if \<not> isAvailable product
          then Inl (BadRequest (''Product '' @ name product @ '' is not available''))
          else let itemTotal = num_mul (num_mul (price product) (rq_quantity item)) (Num 1) in
            orderItemsLoop ps rest
              (orderItems @ [\<lparr>item_product = pid product, item_quantity = rq_quantity item,
                              item_rentalDuration = Num 1, item_price = price product,
                              item_totalPrice = itemTotal\<rparr>])
              (num_add sub itemTotal))"

text \<open>
  \<^verbatim>\<open>new Order({ ... })\<close> after the shipping cost, the tax and the total are computed from the
  subtotal; the statuses are the defaults of the schema, and \<^verbatim>\<open>notes\<close> is a trimmed path.
\<close>

definition newOrder ::
  "env \<Rightarrow> objectId option \<Rightarrow> bool \<Rightarrow> order_body \<Rightarrow> order_item list \<Rightarrow> number \<Rightarrow> order" where
  "newOrder e userRef guest body orderItems sub =
     (let shipping = (if num_gt sub (Num 100) then Num 0 else Num 10);
          taxes = num_mul sub (double (8 / 100));
          amount = num_add (num_add sub shipping) taxes
      in \<lparr>oid = newId e, user = userRef, isGuestOrder = guest, items = orderItems,
           shippingAddress = ob_shippingAddress body, paymentMethod = ob_paymentMethod body,
           paymentStatus = ''Pending'', orderStatus = ''Pending'', subtotal = sub,
           shippingCost = shipping, tax = taxes, totalAmount = amount, orderNumber = None,
           rentalStartDate = ob_rentalStartDate body, rentalEndDate = ob_rentalEndDate body,
           needDate = ob_needDate body, customerNotes = map_option trim (ob_notes body),
           adminNotes = None\<rparr>)"

text \<open>POST /api/orders.\<close>

definition createOrder :: "env \<Rightarrow> requester \<Rightarrow> order_body \<Rightarrow> store \<Rightarrow> (failure + order) \<times> store" where
  "createOrder e r body st =
     (if ob_errors body \<noteq> [] then (Inl (ValidationErrors (ob_errors body)), st)
      else case checkDates e (ob_rentalStartDate body) (ob_rentalEndDate body) (ob_needDate body) of
        Some f \<Rightarrow> (Inl f, st)
      | None \<Rightarrow>
         (case orderItemsLoop (products st) (ob_items body) [] (Num 0) of
            Inl f \<Rightarrow> (Inl f, st)
          | Inr (orderItems, sub) \<Rightarrow>
             (case saveOrder e True (newOrder e (Some (uid r)) False body orderItems sub) st of
                Inl ex \<Rightarrow> (Inl (ServerError ''Server error while creating order''), st)
              | Inr (saved, st') \<Rightarrow> (Inr saved, st'))))"

text \<open>POST /api/orders/guest: no user, and the guest flag.\<close>

definition createGuestOrder :: "env \<Rightarrow> order_body \<Rightarrow> store \<Rightarrow> (failure + order) \<times> store" where
  "createGuestOrder e body st =
     (if ob_errors body \<noteq> [] then (Inl (ValidationErrors (ob_errors body)), st)
      else case checkDates e (ob_rentalStartDate body) (ob_rentalEndDate body) (ob_needDate body) of
        Some f \<Rightarrow> (Inl f, st)
      | None \<Rightarrow>
         (case orderItemsLoop (products st) (ob_items body) [] (Num 0) of
            Inl f \<Rightarrow> (Inl f, st)
          | Inr (orderItems, sub) \<Rightarrow>
             (case saveOrder e True (newOrder e None True body orderItems sub) st of
                Inl ex \<Rightarrow> (Inl (ServerError ''Server error while creating order''), st)
              | Inr (saved, st') \<Rightarrow> (Inr saved, st'))))"

text \<open>
  \<^verbatim>\<open>.populate('user', ...)\<close>: the reference becomes the user document, or \<^verbatim>\<open>null\<close> when
  there is no reference or no such user.
\<close>

definition populateUser :: "store \<Rightarrow> order \<Rightarrow> objectId option" where
  "populateUser st d =
     (case user d of None \<Rightarrow> None | Some u \<Rightarrow> if u \<in> set (userIds st) then Some u else None)"

text \<open>
  GET /api/orders/:id. For a requester who is not an admin the handler reads
  \<^verbatim>\<open>order.user._id\<close>; on \<^verbatim>\<open>null\<close> that throws, and the \<^verbatim>\<open>catch\<close> block answers 500.
\<close>

definition getOrder :: "requester \<Rightarrow> objectId \<Rightarrow> store \<Rightarrow> failure + order" where
  "getOrder r i st =
     (case findOrder (orders st) i of
        None \<Rightarrow> Inl (NotFound ''Order not found'')
      | Some d \<Rightarrow>
          if role r \<noteq> ''admin''
          then (case populateUser st d of
                  None \<Rightarrow> Inl (ServerError ''Server error while fetching order'')
                | Some owner \<Rightarrow>
                    if owner \<noteq> uid r then Inl (Forbidden ''Access denied'')
                    else Inr (d\<lparr>user := Some owner\<rparr>))
          else Inr (d\<lparr>user := populateUser st d\<rparr>))"

text \<open>
  PUT /api/orders/:id/cancel. \<open>note\<close> is \<^verbatim>\<open>req.body.adminNotes\<close>. For a requester who is
  not an admin the handler reads \<^verbatim>\<open>order.user.toString()\<close>, which throws on \<^verbatim>\<open>null\<close>.
\<close>

definition cancelOrder ::
  "env \<Rightarrow> requester \<Rightarrow> objectId \<Rightarrow> string option \<Rightarrow> store \<Rightarrow> (failure + order) \<times> store" where
  "cancelOrder e r i note st =
     (case findOrder (orders st) i of
        None \<Rightarrow> (Inl (NotFound ''Order not found''), st)
      | Some d \<Rightarrow>
          if role r \<noteq> ''admin'' \<and> user d = None
          then (Inl (ServerError ''Server error while cancelling order''), st)
          else if role r \<noteq> ''admin'' \<and> user d \<noteq> Some (uid r)
          then (Inl (Forbidden ''Access denied''), st)
          else if orderStatus d \<notin> set [''Pending'', ''Confirmed'']
          then (Inl (BadRequest ''Order cannot be cancelled in its current status''), st)
          else let d1 = d\<lparr>orderStatus := ''Cancelled''\<rparr>;
                   d2 = (if role r = ''admin''
                         then d1\<lparr>adminNotes :=
                                  Some (trim (if truthy note then the note
                                              else ''Order cancelled by admin''))\<rparr>
                         else d1)
               in (case saveOrder e False d2 st of
                     Inl ex \<Rightarrow> (Inl (ServerError ''Server error while cancelling order''), st)
                   | Inr (saved, st') \<Rightarrow> (Inr saved, st')))"

text \<open>
  GET /api/orders/stats/summary. The revenue is the \<^verbatim>\<open>$sum\<close> of \<^verbatim>\<open>totalAmount\<close> over the
  documents that \<^verbatim>\<open>{ orderStatus: { $in: ['Delivered', 'Paid'] } }\<close> matches, and 0 when
  the aggregation answers no group. The accumulator is read as adding the amounts to 0 one
  after the other; over one amount, a double, the sum is that amount.
\<close>

record order_stats =
  totalOrders :: nat
  pendingOrders :: nat
  completedOrders :: nat
  cancelledOrders :: nat
  totalRevenue :: number

definition countStatus :: "string \<Rightarrow> order list \<Rightarrow> nat" where
  "countStatus s ds = length (filter (\<lambda>d. orderStatus d = s) ds)"

definition revenueData :: "order list \<Rightarrow> number list" where
  "revenueData ds =
     (let matched = filter (\<lambda>d. orderStatus d \<in> set [''Delivered'', ''Paid'']) ds
      in if matched = [] then [] else [foldl num_add (Num 0) (map totalAmount matched)])"

definition statsSummary :: "store \<Rightarrow> order_stats" where
  "statsSummary st =
     \<lparr>totalOrders = length (orders st),
      pendingOrders = countStatus ''Pending'' (orders st),
      completedOrders = countStatus ''Delivered'' (orders st),
      cancelledOrders = countStatus ''Cancelled'' (orders st),
      totalRevenue = (if length (revenueData (orders st)) > 0 then revenueData (orders st) ! 0
                      else Num 0)\<rparr>"

section \<open>Verification: the rounding of numbers\<close>

lemma pow2_powi: "pow2 k = 2 powi k"
  by (simp add: pow2_def power_int_def field_simps)

lemma pow2_pos: "0 < pow2 k"
  by (simp add: pow2_powi)

lemma pow2_add: "pow2 (i + j) = pow2 i * pow2 j"
  by (simp add: pow2_powi power_int_add)

lemma pow2_mono: "i \<le> j \<Longrightarrow> pow2 i \<le> pow2 j"
  by (simp add: pow2_powi power_int_increasing)

lemma pow2_nat: "pow2 (int n) = 2 ^ n"
  by (simp add: pow2_def)

lemma bitlen_pow2_bounds:
  assumes "0 < a"
  shows "pow2 (bitlen a - 1) \<le> of_int a" "(of_int a :: rat) < pow2 (bitlen a)"
proof -
  from bitlen_bounds [OF assms] have b: "2 ^ nat (bitlen a - 1) \<le> a" "a < 2 ^ nat (bitlen a)"
    by simp_all
  have p: "1 \<le> bitlen a"
    using assms bitlen_eq_zero_iff [of a] bitlen_nonneg [of a] by linarith
  have "(of_int (2 ^ nat (bitlen a - 1)) :: rat) \<le> of_int a"
    using b(1) by (simp only: of_int_le_iff)
  then show "pow2 (bitlen a - 1) \<le> of_int a"
    using p by (simp add: pow2_def)
  have "(of_int a :: rat) < of_int (2 ^ nat (bitlen a))"
    using b(2) by (simp only: of_int_less_iff)
  then show "(of_int a :: rat) < pow2 (bitlen a)"
    using p by (simp add: pow2_def)
qed

lemma ilog2_bounds:
  assumes "0 < x"
  shows "pow2 (ilog2 x) \<le> x \<and> x < pow2 (ilog2 x + 1)"
proof -
  obtain a b where q: "quotient_of x = (a, b)" by (cases "quotient_of x")
  then have b: "0 < b" and x: "x = of_int a / of_int b"
    by (auto dest: quotient_of_denom_pos quotient_of_div)
  from assms x b have a: "0 < a"
    by (simp add: zero_less_divide_iff)
  let ?k = "bitlen a - bitlen b"
  note A = bitlen_pow2_bounds [OF a] and B = bitlen_pow2_bounds [OF b]
  have rb: "(0 :: rat) < of_int b" using b by simp
  have e1: "pow2 (?k - 1) * pow2 (bitlen b) = pow2 (bitlen a - 1)"
    by (simp add: pow2_add [symmetric])
  have e2: "pow2 (?k + 1) * pow2 (bitlen b - 1) = pow2 (bitlen a)"
    by (simp add: pow2_add [symmetric])
  have "pow2 (?k - 1) * of_int b < pow2 (?k - 1) * pow2 (bitlen b)"
    using B(2) pow2_pos [of "?k - 1"] by simp
  also have "\<dots> \<le> of_int a" using e1 A(1) by simp
  finally have lo: "pow2 (?k - 1) < x"
    using rb by (simp add: x pos_less_divide_eq)
  have "of_int a < pow2 (?k + 1) * pow2 (bitlen b - 1)"
    using e2 A(2) by simp
  also have "\<dots> \<le> pow2 (?k + 1) * of_int b"
    using B(1) pow2_pos [of "?k + 1"] by simp
  finally have hi: "x < pow2 (?k + 1)"
    using rb by (simp add: x pos_divide_less_eq)
  show ?thesis
    using lo hi q by (auto simp: ilog2_def Let_def intro: less_imp_le)
qed

lemma round_half_even_near: "\<bar>y - of_int (round_half_even y)\<bar> \<le> 1 / 2"
proof -
  have "of_int \<lfloor>y\<rfloor> \<le> y" "y < of_int \<lfloor>y\<rfloor> + 1"
    by linarith+
  then show ?thesis
    by (auto simp: round_half_even_def Let_def abs_le_iff)
qed

lemma round_half_even_nonneg: "0 \<le> y \<Longrightarrow> 0 \<le> round_half_even y"
  by (auto simp: round_half_even_def Let_def)

text \<open>The spacing of the doubles around a rational.\<close>

definition quantum :: "rat \<Rightarrow> rat" where
  "quantum x = pow2 (max (ilog2 \<bar>x\<bar>) (- 1022) - 52)"

lemma quantum_pos: "0 < quantum x"
  by (simp add: quantum_def pow2_pos)

lemma significand_bound:
  assumes "x \<noteq> 0"
  shows "\<bar>round_half_even (x / quantum x)\<bar> \<le> 2 ^ 53"
proof -
  let ?e = "max (ilog2 \<bar>x\<bar>) (- 1022)"
  let ?n = "round_half_even (x / quantum x)"
  have "\<bar>x\<bar> < pow2 (ilog2 \<bar>x\<bar> + 1)"
    using ilog2_bounds [of "\<bar>x\<bar>"] assms by simp
  also have "\<dots> \<le> pow2 (?e + 1)"
    by (rule pow2_mono) simp
  also have "\<dots> = quantum x * 2 ^ 53"
  proof -
    have "?e + 1 = (?e - 52) + 53" by linarith
    then have "pow2 (?e + 1) = pow2 ((?e - 52) + 53)" by (rule arg_cong)
    also have "\<dots> = pow2 (?e - 52) * pow2 53" by (rule pow2_add)
    also have "pow2 53 = 2 ^ 53" using pow2_nat [of 53] by simp
    finally show ?thesis by (simp only: quantum_def)
  qed
  finally have "\<bar>x / quantum x\<bar> < 2 ^ 53"
    using quantum_pos [of x] by (simp add: pos_divide_less_eq mult.commute)
  moreover note round_half_even_near [of "x / quantum x"]
  ultimately have "\<bar>(of_int ?n :: rat)\<bar> < 2 ^ 53 + 1"
    by linarith
  then have "(of_int \<bar>?n\<bar> :: rat) < of_int (2 ^ 53 + 1)"
    by simp
  then have "\<bar>?n\<bar> < 2 ^ 53 + 1"
    by (simp only: of_int_less_iff)
  then show ?thesis by simp
qed

lemma double_nearest:
  "\<bar>x - of_int (round_half_even (x / quantum x)) * quantum x\<bar> \<le> quantum x / 2"
proof -
  let ?q = "quantum x"
  let ?n = "round_half_even (x / ?q)"
  have "\<bar>x / ?q - of_int ?n\<bar> * ?q \<le> 1 / 2 * ?q"
    using round_half_even_near [of "x / ?q"] quantum_pos [of x]
    by (intro mult_right_mono) simp_all
  moreover have "x - of_int ?n * ?q = (x / ?q - of_int ?n) * ?q"
    using quantum_pos [of x] by (simp add: left_diff_distrib)
  then have "\<bar>x - of_int ?n * ?q\<bar> = \<bar>x / ?q - of_int ?n\<bar> * ?q"
    using quantum_pos [of x] by (simp only: abs_mult abs_of_pos)
  ultimately show ?thesis by simp
qed

lemma pow2_strict_mono: "i < j \<Longrightarrow> pow2 i < pow2 j"
  by (simp add: pow2_powi power_int_strict_increasing)

lemma quantum_times: "quantum x * 2 ^ 53 = pow2 (max (ilog2 \<bar>x\<bar>) (- 1022) + 1)"
  and quantum_times_half: "quantum x * 2 ^ 52 = pow2 (max (ilog2 \<bar>x\<bar>) (- 1022))"
proof -
  let ?e = "max (ilog2 \<bar>x\<bar>) (- 1022)"
  have "?e + 1 = (?e - 52) + 53" by linarith
  then have "pow2 (?e + 1) = pow2 ((?e - 52) + 53)" by (rule arg_cong)
  also have "\<dots> = pow2 (?e - 52) * pow2 53" by (rule pow2_add)
  also have "pow2 53 = 2 ^ 53" using pow2_nat [of 53] by simp
  finally show "quantum x * 2 ^ 53 = pow2 (?e + 1)" by (simp only: quantum_def)
  have "?e = (?e - 52) + 52" by linarith
  then have "pow2 ?e = pow2 ((?e - 52) + 52)" by (rule arg_cong)
  also have "\<dots> = pow2 (?e - 52) * pow2 52" by (rule pow2_add)
  also have "pow2 52 = 2 ^ 52" using pow2_nat [of 52] by simp
  finally show "quantum x * 2 ^ 52 = pow2 ?e" by (simp only: quantum_def)
qed

lemma overflow_iff:
  assumes x: "x \<noteq> 0"
  defines "e \<equiv> max (ilog2 \<bar>x\<bar>) (- 1022)"
  defines "n \<equiv> round_half_even (x / quantum x)"
  shows "(1024 \<le> e \<or> (e = 1023 \<and> \<bar>n\<bar> = 2 ^ 53))
         = (pow2 1024 \<le> \<bar>of_int n * quantum x\<bar>)"
proof -
  let ?q = "quantum x"
  have q: "0 < ?q" by (rule quantum_pos)
  have m: "\<bar>n\<bar> \<le> 2 ^ 53"
    unfolding n_def by (rule significand_bound [OF x])
  have val: "\<bar>of_int n * ?q\<bar> = of_int \<bar>n\<bar> * ?q"
    using q by (simp add: abs_mult)
  have top: "?q * 2 ^ 53 = pow2 (e + 1)" and half: "?q * 2 ^ 52 = pow2 e"
    unfolding e_def by (rule quantum_times, rule quantum_times_half)
  show ?thesis
  proof (cases "1024 \<le> e")
    case True
    then have "e = ilog2 \<bar>x\<bar>" by (simp add: e_def max_def split: if_splits)
    then have "pow2 e \<le> \<bar>x\<bar>"
      using ilog2_bounds [of "\<bar>x\<bar>"] x by simp
    then have "2 ^ 52 \<le> \<bar>x\<bar> / ?q"
      using half q by (simp add: pos_le_divide_eq mult.commute)
    moreover have "\<bar>x\<bar> / ?q = \<bar>x / ?q\<bar>"
      using q by simp
    moreover note round_half_even_near [of "x / ?q"]
    ultimately have "(2 ^ 52 - 1 :: rat) < \<bar>of_int n\<bar>"
      unfolding n_def by linarith
    then have "(of_int (2 ^ 52 - 1) :: rat) < of_int \<bar>n\<bar>" by simp
    then have "2 ^ 52 - 1 < \<bar>n\<bar>" by (simp only: of_int_less_iff)
    then have "(2 ^ 52 :: int) \<le> \<bar>n\<bar>" by simp
    then have "(of_int (2 ^ 52) :: rat) \<le> of_int \<bar>n\<bar>" by (simp only: of_int_le_iff)
    then have "2 ^ 52 * ?q \<le> of_int \<bar>n\<bar> * ?q"
      using q by (intro mult_right_mono) simp_all
    then have "pow2 e \<le> of_int \<bar>n\<bar> * ?q"
      using half by (simp add: mult.commute)
    moreover have "pow2 1024 \<le> pow2 e"
      using True by (rule pow2_mono)
    ultimately show ?thesis using True val by simp
  next
    case False
    show ?thesis
    proof (cases "e = 1023 \<and> \<bar>n\<bar> = 2 ^ 53")
      case True
      then have "of_int \<bar>n\<bar> * ?q = pow2 1024"
        using top by (simp add: mult.commute)
      with True val show ?thesis by simp
    next
      case no: False
      have "of_int \<bar>n\<bar> * ?q < pow2 1024"
      proof (cases "e = 1023")
        case True
        with no m have "\<bar>n\<bar> < 2 ^ 53" by simp
        then have "(of_int \<bar>n\<bar> :: rat) < of_int (2 ^ 53)" by (simp only: of_int_less_iff)
        then have "of_int \<bar>n\<bar> * ?q < 2 ^ 53 * ?q"
          using q by (intro mult_strict_right_mono) simp_all
        with top True show ?thesis by (simp add: mult.commute)
      next
        case False
        with \<open>\<not> 1024 \<le> e\<close> have "e + 1 < 1024" by simp
        then have "pow2 (e + 1) < pow2 1024" by (rule pow2_strict_mono)
        moreover have "(of_int \<bar>n\<bar> :: rat) \<le> of_int (2 ^ 53)"
          using m by (simp only: of_int_le_iff)
        then have "of_int \<bar>n\<bar> * ?q \<le> 2 ^ 53 * ?q"
          using q by (intro mult_right_mono) simp_all
        ultimately show ?thesis using top by (simp add: mult.commute)
      qed
      with no \<open>\<not> 1024 \<le> e\<close> val show ?thesis by simp
    qed
  qed
qed

text \<open>
  The double of a rational: the nearest value of the grid around it, ties to the even
  significand; an infinity when that value reaches \<open>2 ^ 1024\<close>.
\<close>

lemma double_reading:
  "double x =
     (let r = of_int (round_half_even (x / quantum x)) * quantum x in
      if x = 0 then Num 0
      else if pow2 1024 \<le> \<bar>r\<bar> then (if 0 < x then Infinity else NegInfinity)
      else Num r)"
proof (cases "x = 0")
  case True
  then show ?thesis by (simp add: double_def)
next
  case False
  from overflow_iff [OF False] False show ?thesis
    by (simp add: double_def Let_def quantum_def)
qed

lemma double_nonneg:
  assumes "0 \<le> x"
  shows "double x = Infinity \<or> (\<exists>r\<ge>0. double x = Num r)"
proof (cases "x = 0")
  case True
  then show ?thesis by (simp add: double_def)
next
  case False
  have "0 \<le> x / quantum x"
    using assms quantum_pos [of x] by simp
  then have "0 \<le> round_half_even (x / quantum x)"
    by (rule round_half_even_nonneg)
  then have "(0 :: rat) \<le> of_int (round_half_even (x / quantum x)) * quantum x"
    using quantum_pos [of x] by simp
  with False assms show ?thesis
    by (auto simp: double_reading Let_def)
qed

text \<open>A Number that is not negative: a finite one from 0 on, or \<open>Infinity\<close>.\<close>

definition nonneg :: "number \<Rightarrow> bool" where
  "nonneg v = (case v of Num a \<Rightarrow> 0 \<le> a | Infinity \<Rightarrow> True | _ \<Rightarrow> False)"

lemma nonneg_double: "0 \<le> x \<Longrightarrow> nonneg (double x)"
  using double_nonneg [of x] by (auto simp: nonneg_def)

lemma nonneg_not_NaN: "nonneg v \<Longrightarrow> v \<noteq> NaN"
  by (auto simp: nonneg_def)

lemma nonneg_add: "nonneg a \<Longrightarrow> nonneg b \<Longrightarrow> nonneg (num_add a b)"
  by (cases a; cases b)
    (simp_all add: nonneg_def [of "Num _"] nonneg_def [of Infinity] nonneg_def [of NegInfinity]
      nonneg_def [of NaN] nonneg_double)

lemma nonneg_mul: "0 \<le> a \<Longrightarrow> 0 \<le> b \<Longrightarrow> nonneg (num_mul (Num a) (Num b))"
  by (simp add: nonneg_double)

lemma nonneg_scale: "nonneg a \<Longrightarrow> 0 < c \<Longrightarrow> nonneg (num_mul a (Num c))"
  by (cases a)
    (simp_all add: nonneg_def [of "Num _"] nonneg_def [of Infinity] nonneg_def [of NegInfinity]
      nonneg_def [of NaN] nonneg_double)

lemma nonneg_foldl:
  "nonneg s \<Longrightarrow> list_all nonneg xs \<Longrightarrow> nonneg (foldl num_add s xs)"
  by (induction xs arbitrary: s) (simp_all add: nonneg_add)

text \<open>The literal \<^verbatim>\<open>0.08\<close>.\<close>

lemma eight_percent: "double (8 / 100) = Num (5764607523034235 / 72057594037927936)"
  by code_simp

section \<open>Verification: saving a Product\<close>

lemma find_map_replace:
  "\<exists>q \<in> set ps. pid q = pid p \<Longrightarrow>
   find (\<lambda>x. pid x = pid p) (map (\<lambda>q. if pid q = pid p then p else q) ps) = Some p"
  by (induction ps) auto

lemma find_append_new:
  "\<not> (\<exists>q \<in> set ps. pid q = pid p) \<Longrightarrow> find (\<lambda>x. pid x = pid p) (ps @ [p]) = Some p"
  by (induction ps) auto

lemma findProduct_upsert: "findProduct (upsertProduct p ps) (pid p) = Some p"
  unfolding findProduct_def upsertProduct_def
  using find_map_replace [of ps p] find_append_new [of ps p] by (simp split: if_splits)

lemma findProduct_pid: "findProduct ps i = Some p \<Longrightarrow> pid p = i"
  by (auto simp: findProduct_def find_Some_iff)

lemma findProduct_append:
  "findProduct ps (pid p) = None \<Longrightarrow> findProduct (ps @ [p]) (pid p) = Some p"
  unfolding findProduct_def using find_append_new [of ps p] by (simp add: find_None_iff)

lemma generateSlug_keeps:
  "pid (generateSlug m ps p) = pid p" "categories (generateSlug m ps p) = categories p"
  "category (generateSlug m ps p) = category p" "name (generateSlug m ps p) = name p"
  by (simp_all add: generateSlug_def Let_def)

lemma syncCategory_keeps:
  "pid (syncCategory p) = pid p" "categories (syncCategory p) = categories p"
  "slug (syncCategory p) = slug p" "name (syncCategory p) = name p"
  by (simp_all add: syncCategory_def)

lemma writePaths_pid: "pid (writePaths paths p q) = pid q"
  by (simp add: writePaths_def)

lemma saveProduct_Inr:
  "saveProduct isNew modified p st = Inr (p', st') \<Longrightarrow>
   validate_product p \<and> p' = generateSlug modified (products st) (syncCategory p)"
  by (auto simp: saveProduct_def Let_def split: if_splits option.splits)

lemma saveProduct_new:
  "saveProduct True modified p st = Inr (p', st') \<Longrightarrow>
   findProduct (products st) (pid p) = None \<and> \<not> slug_conflict (products st) p'
   \<and> st' = st\<lparr>products := products st @ [p']\<rparr>"
  by (auto simp: saveProduct_def Let_def generateSlug_keeps syncCategory_keeps split: if_splits)

lemma saveProduct_loaded:
  "saveProduct False modified p st = Inr (p', st') \<Longrightarrow>
   \<exists>q. findProduct (products st) (pid p) = Some q
     \<and> \<not> slug_conflict (products st) (writePaths (savedPaths modified p) p' q)
     \<and> st' = st\<lparr>products := upsertProduct (writePaths (savedPaths modified p) p' q) (products st)\<rparr>"
  by (auto simp: saveProduct_def Let_def generateSlug_keeps syncCategory_keeps
      split: if_splits option.splits)

text \<open>
  What the first hook achieves. The document a successful save answers has the first
  element of a non-empty \<open>categories\<close> list in its \<open>category\<close> field, whatever paths were
  modified.
\<close>

lemma save_syncs_document:
  assumes ok: "saveProduct isNew modified p st = Inr (p', st')" and ne: "categories p' \<noteq> []"
  shows "category p' = Some (categories p' ! 0) \<and> categories p' = categories p"
proof -
  note s = saveProduct_Inr [OF ok]
  from s have cats: "categories p' = categories p"
    by (simp add: generateSlug_keeps syncCategory_keeps)
  with ne have "category (syncCategory p) = Some (categories p ! 0)"
    by (simp add: syncCategory_def)
  with s cats show ?thesis
    by (simp add: generateSlug_keeps)
qed

text \<open>A new document is stored as it is answered.\<close>

lemma save_new_stored:
  assumes "saveProduct True modified p st = Inr (p', st')"
  shows "findProduct (products st') (pid p') = Some p' \<and> categories p' = categories p
         \<and> pid p' = pid p"
proof -
  from saveProduct_Inr [OF assms] have k: "categories p' = categories p" "pid p' = pid p"
    by (simp_all add: generateSlug_keeps syncCategory_keeps)
  from saveProduct_new [OF assms] have none: "findProduct (products st) (pid p') = None"
    and st': "products st' = products st @ [p']"
    using k by simp_all
  from none have "findProduct (products st @ [p']) (pid p') = Some p'"
    by (rule findProduct_append)
  then show ?thesis
    using k st' by simp
qed

text \<open>
  The stored document of a loaded product follows when the \<open>categories\<close> list in memory
  is the stored one, or is written by the save.
\<close>

lemma save_syncs_stored:
  assumes ok: "saveProduct False modified p st = Inr (p', st')"
    and q: "findProduct (products st) (pid p) = Some q"
    and same: "categories p = categories q \<or> ''categories'' \<in> set modified"
    and ne: "categories p \<noteq> []"
  shows "\<exists>q'. findProduct (products st') (pid p) = Some q' \<and> categories q' = categories p
              \<and> category q' = Some (categories q' ! 0)"
proof -
  let ?q' = "writePaths (savedPaths modified p) p' q"
  from saveProduct_loaded [OF ok] q
  have st': "products st' = upsertProduct ?q' (products st)"
    by auto
  have id: "pid ?q' = pid p"
    using findProduct_pid [OF q] by (simp add: writePaths_pid)
  from save_syncs_document [OF ok] ne saveProduct_Inr [OF ok]
  have p': "categories p' = categories p" "category p' = Some (categories p ! 0)"
    by (simp_all add: generateSlug_keeps syncCategory_keeps)
  have "categories ?q' = categories p"
    using same p'(1) by (auto simp: writePaths_def savedPaths_def)
  moreover have "category ?q' = Some (categories p ! 0)"
    using ne p'(2) by (simp add: writePaths_def savedPaths_def)
  moreover have "findProduct (products st') (pid p) = Some ?q'"
    using findProduct_upsert [of ?q' "products st"] st' id by simp
  ultimately show ?thesis by simp
qed

subsection \<open>A shop\<close>

definition shop_env :: env where
  "shop_env = \<lparr>now = 1793707200000, tzOffset = 0, fullYear = 2026, monthIndex = 10, dayOfMonth = 3,
     random1000 = 7, newId = ''p1'', upload = (\<lambda>i. Some (''https://img.example/'' @ i))\<rparr>"

definition empty_shop :: store where
  "empty_shop = \<lparr>products = [], orders = [], categoryIds = [''c1'', ''c2''], userIds = [''u1'']\<rparr>"

definition red_dress :: product_body where
  "red_dress = \<lparr>b_errors = [], b_name = ''Red Dress'', b_categories = [Some ''c1''],
     b_images = [''https://img.example/red.png''], b_price = Num 40, b_sizes = [''M''],
     b_color = ''red'', b_isFeatured = None\<rparr>"

definition dress :: "objectId \<Rightarrow> string option \<Rightarrow> product" where
  "dress i s = \<lparr>pid = i, name = ''Red Dress'', categories = [''c1''], category = Some ''c1'',
     images = [''https://img.example/red.png''], price = Num 40, sizes = [''M''], color = ''red'',
     isAvailable = True, isFeatured = False, slug = s, views = 0\<rparr>"

definition shop_of :: "product list \<Rightarrow> store" where
  "shop_of ps = empty_shop\<lparr>products := ps\<rparr>"

subsection \<open>A view after a category was deleted\<close>

text \<open>
  A dress in the categories \<open>c2\<close> and \<open>c1\<close>, as the create route stores it: the legacy
  field holds \<open>c2\<close>.
\<close>

definition two_categories :: product_body where
  "two_categories = red_dress\<lparr>b_categories := [Some ''c2'', Some ''c1'']\<rparr>"

definition synced_dress :: product where
  "synced_dress = dress ''p1'' (Some ''red-dress'')\<lparr>categories := [''c2'', ''c1''], category := Some ''c2''\<rparr>"

definition viewer :: requester where
  "viewer = \<lparr>uid = ''u1'', role = ''user''\<rparr>"

text \<open>
  With \<open>c2\<close> deleted, the populated document holds the categories \<open>[c1]\<close> and no category.
  The hook assigns \<open>c1\<close>; the save writes \<open>views\<close> and \<open>category\<close>, and the stored array
  stays \<open>[c2, c1]\<close>.
\<close>

definition viewed_dress :: product where
  "viewed_dress = synced_dress\<lparr>categories := [''c1''], category := Some ''c1'', views := 1\<rparr>"

definition stored_dress :: product where
  "stored_dress = synced_dress\<lparr>category := Some ''c1'', views := 1\<rparr>"

text \<open>
  C1. A successful save does not always leave the first element of the stored
  \<open>categories\<close> list in the stored \<open>category\<close> field. The create route stores a dress with
  the categories \<open>[c2, c1]\<close> and the category \<open>c2\<close>; an admin deletes the category \<open>c2\<close>;
  a signed-in customer then fetches the dress. The fetch succeeds, its save counts the
  view, and the stored dress ends with the category \<open>c1\<close> beside the categories
  \<open>[c2, c1]\<close>, whose first element is \<open>c2\<close>.
\<close>

theorem view_save_leaves_category_behind:
  "createProduct shop_env two_categories empty_shop = (Inr synced_dress, shop_of [synced_dress])
   \<and> category synced_dress = Some (categories synced_dress ! 0)
   \<and> deleteCategory ''c2'' (shop_of [synced_dress])
       = (Inr (), shop_of [synced_dress]\<lparr>categoryIds := [''c1'']\<rparr>)
   \<and> getProduct (Some viewer) ''p1'' (shop_of [synced_dress]\<lparr>categoryIds := [''c1'']\<rparr>)
       = (Inr viewed_dress, shop_of [stored_dress]\<lparr>categoryIds := [''c1'']\<rparr>)
   \<and> categories stored_dress = [''c2'', ''c1'']
   \<and> category stored_dress = Some ''c1''
   \<and> category stored_dress \<noteq> Some (categories stored_dress ! 0)"
  by code_simp

section \<open>Verification: slugs\<close>

text \<open>
  The shape of a base slug: only \<^verbatim>\<open>a-z\<close>, \<^verbatim>\<open>0-9\<close> and hyphens, no two hyphens in a row, no
  hyphen at either end.
\<close>

definition slug_char :: "char \<Rightarrow> bool" where
  "slug_char c = (is_alnum c \<or> c = CHR ''-'')"

text \<open>No two hyphens stand side by side.\<close>

fun single_hyphens :: "string \<Rightarrow> bool" where
  "single_hyphens (a # b # cs) = (\<not> (a = CHR ''-'' \<and> b = CHR ''-'') \<and> single_hyphens (b # cs))"
| "single_hyphens cs = True"

definition slug_shape :: "string \<Rightarrow> bool" where
  "slug_shape s =
     (list_all slug_char s \<and> single_hyphens s
      \<and> (s = [] \<or> (hd s \<noteq> CHR ''-'' \<and> last s \<noteq> CHR ''-'')))"

text \<open>
  The base slug as the specification words it. The words of a text are its maximal runs of
  letters and digits: every run of other characters separates two words, or stands at an
  end of the text and vanishes. The slug is the words of the lower-cased name, joined by
  single hyphens.
\<close>

function slug_words :: "string \<Rightarrow> string list" where
  "slug_words [] = []"
| "slug_words (c # cs) =
     (if is_alnum c then (c # takeWhile is_alnum cs) # slug_words (dropWhile is_alnum cs)
      else slug_words cs)"
  by pat_completeness auto
termination
  by (relation "measure length") (auto simp: less_Suc_eq_le length_dropWhile_le)

fun join_hyphen :: "string list \<Rightarrow> string" where
  "join_hyphen [] = []"
| "join_hyphen [w] = w"
| "join_hyphen (w # v # ws) = w @ CHR ''-'' # join_hyphen (v # ws)"

lemma hyphen_not_alnum: "\<not> is_alnum CHR ''-''"
  by (simp add: is_alnum_def)

lemma replace_chars: "list_all slug_char (replace_non_alnum s)"
  by (induction s rule: replace_non_alnum.induct) (auto simp: slug_char_def)

lemma replace_hd_alnum:
  "s \<noteq> [] \<Longrightarrow> is_alnum (hd s) \<Longrightarrow> hd (replace_non_alnum s) = hd s"
  by (cases s) auto

lemma replace_nil: "replace_non_alnum s = [] \<longleftrightarrow> s = []"
  by (cases s) auto

lemma dropWhile_hd: "dropWhile P s \<noteq> [] \<Longrightarrow> \<not> P (hd (dropWhile P s))"
  by (simp add: hd_dropWhile)

lemma replace_single: "single_hyphens (replace_non_alnum s)"
proof (induction s rule: replace_non_alnum.induct)
  case 1
  show ?case by simp
next
  case (2 c cs)
  show ?case
  proof (cases "is_alnum c")
    case True
    with 2 hyphen_not_alnum show ?thesis
      by (cases "replace_non_alnum cs") auto
  next
    case False
    let ?r = "dropWhile (\<lambda>x. \<not> is_alnum x) cs"
    show ?thesis
    proof (cases ?r)
      case Nil
      then have "replace_non_alnum (c # cs) = ''-''"
        using False by (simp del: dropWhile_eq_Nil_conv)
      then show ?thesis by simp
    next
      case (Cons d ds)
      then have "is_alnum d"
        using dropWhile_hd [of "\<lambda>x. \<not> is_alnum x" cs] by simp
      with Cons False 2 hyphen_not_alnum show ?thesis
        by auto
    qed
  qed
qed

lemma single_tl: "single_hyphens (c # cs) \<Longrightarrow> single_hyphens cs"
  by (cases cs) auto

lemma single_butlast: "single_hyphens s \<Longrightarrow> single_hyphens (butlast s)"
  by (induction s rule: single_hyphens.induct) (auto split: if_splits)

lemma single_last_butlast:
  "single_hyphens s \<Longrightarrow> butlast s \<noteq> [] \<Longrightarrow> last s = CHR ''-'' \<Longrightarrow> last (butlast s) \<noteq> CHR ''-''"
  by (induction s rule: single_hyphens.induct) (auto split: if_splits)

lemma strip_shape:
  assumes "list_all slug_char s" "single_hyphens s"
  shows "slug_shape (strip_hyphens s)"
proof -
  define s1 where "s1 = (case s of [] \<Rightarrow> [] | c # cs \<Rightarrow> if c = CHR ''-'' then cs else s)"
  have s1_chars: "list_all slug_char s1"
    using assms(1) by (auto simp: s1_def split: list.splits)
  have s1_single: "single_hyphens s1"
    using assms(2) by (auto simp: s1_def split: list.splits dest: single_tl)
  have s1_hd: "s1 \<noteq> [] \<Longrightarrow> hd s1 \<noteq> CHR ''-''"
    using assms(2) by (cases s; cases "tl s") (auto simp: s1_def split: if_splits)
  have eq: "strip_hyphens s = (if s1 \<noteq> [] \<and> last s1 = CHR ''-'' then butlast s1 else s1)"
    by (simp add: strip_hyphens_def s1_def)
  show ?thesis
  proof (cases "s1 \<noteq> [] \<and> last s1 = CHR ''-''")
    case False
    with eq s1_chars s1_single s1_hd show ?thesis
      by (auto simp: slug_shape_def)
  next
    case True
    have "list_all slug_char (butlast s1)"
      using s1_chars by (auto simp: list_all_iff dest: in_set_butlastD)
    moreover have "single_hyphens (butlast s1)"
      using s1_single by (rule single_butlast)
    moreover have "butlast s1 \<noteq> [] \<Longrightarrow> hd (butlast s1) \<noteq> CHR ''-''"
      using s1_hd True by (cases s1) (auto split: if_splits)
    moreover have "butlast s1 \<noteq> [] \<Longrightarrow> last (butlast s1) \<noteq> CHR ''-''"
      using single_last_butlast [OF s1_single] True by simp
    ultimately show ?thesis
      using eq True by (auto simp: slug_shape_def)
  qed
qed

lemma baseSlug_shape: "slug_shape (baseSlug nm)"
  unfolding baseSlug_def by (rule strip_shape [OF replace_chars replace_single])

lemma filter_dropWhile_not: "filter P (dropWhile (\<lambda>x. \<not> P x) xs) = filter P xs"
  by (induction xs) auto

lemma replace_alnum: "filter is_alnum (replace_non_alnum s) = filter is_alnum s"
  by (induction s rule: replace_non_alnum.induct)
     (auto simp: hyphen_not_alnum filter_dropWhile_not)

lemma filter_butlast_hyphen:
  "s \<noteq> [] \<Longrightarrow> last s = CHR ''-'' \<Longrightarrow> filter is_alnum (butlast s) = filter is_alnum s"
  by (induction s) (auto simp: hyphen_not_alnum)

lemma strip_alnum: "filter is_alnum (strip_hyphens s) = filter is_alnum s"
  by (cases s) (auto simp: strip_hyphens_def Let_def hyphen_not_alnum filter_butlast_hyphen)

lemma baseSlug_alnum: "filter is_alnum (baseSlug nm) = filter is_alnum (toLowerCase nm)"
  by (simp add: baseSlug_def strip_alnum replace_alnum)

lemma words_skip: "slug_words (dropWhile (\<lambda>x. \<not> is_alnum x) cs) = slug_words cs"
  by (induction cs) auto

lemma words_nil: "slug_words t = [] \<longleftrightarrow> (\<forall>c \<in> set t. \<not> is_alnum c)"
  by (induction t rule: slug_words.induct) auto

lemma words_cons_alnum:
  "is_alnum c \<Longrightarrow> is_alnum d \<Longrightarrow>
   slug_words (c # d # cs) = (c # hd (slug_words (d # cs))) # tl (slug_words (d # cs))"
  by simp

lemma join_cons_char: "join_hyphen ((c # w) # ws) = c # join_hyphen (w # ws)"
  by (cases ws) auto

text \<open>Without one hyphen at the end.\<close>

definition rstrip :: "string \<Rightarrow> string" where
  "rstrip s = (if s \<noteq> [] \<and> last s = CHR ''-'' then butlast s else s)"

lemma strip_hyphens_alt:
  "strip_hyphens s = rstrip (case s of [] \<Rightarrow> [] | c # cs \<Rightarrow> if c = CHR ''-'' then cs else s)"
  by (simp add: strip_hyphens_def rstrip_def Let_def)

lemma rstrip_cons: "s \<noteq> [] \<Longrightarrow> rstrip (c # s) = c # rstrip s"
  by (simp add: rstrip_def)

text \<open>
  From a word character on, the replaced text without its last hyphen is the joined words.
\<close>

lemma replace_words:
  "(t = [] \<or> is_alnum (hd t)) \<longrightarrow> rstrip (replace_non_alnum t) = join_hyphen (slug_words t)"
proof (induction t rule: length_induct)
  case (1 t)
  show ?case
  proof (cases t)
    case Nil
    then show ?thesis by (simp add: rstrip_def)
  next
    case (Cons c cs)
    show ?thesis
    proof (intro impI)
      assume "t = [] \<or> is_alnum (hd t)"
      with Cons have c: "is_alnum c" by simp
      show "rstrip (replace_non_alnum t) = join_hyphen (slug_words t)"
      proof (cases cs)
        case Nil
        with Cons c show ?thesis
          by (simp add: rstrip_def hyphen_not_alnum) (metis hyphen_not_alnum)
      next
        case (Cons d ds)
        note cs = this
        show ?thesis
        proof (cases "is_alnum d")
          case True
          have l: "length cs < length t"
            using \<open>t = c # cs\<close> by simp
          have s: "cs = [] \<or> is_alnum (hd cs)"
            using cs True by simp
          have ih: "rstrip (replace_non_alnum cs) = join_hyphen (slug_words cs)"
            using "1.IH" l s by blast
          have ne: "replace_non_alnum cs \<noteq> []"
            using cs by (simp add: replace_nil)
          have "slug_words cs \<noteq> []"
            using cs True by simp
          then obtain w ws where w: "slug_words cs = w # ws"
            by (cases "slug_words cs") auto
          have "slug_words t = (c # w) # ws"
            using \<open>t = c # cs\<close> cs c True w by simp
          then have "join_hyphen (slug_words t) = c # join_hyphen (slug_words cs)"
            using w by (simp add: join_cons_char)
          moreover have "rstrip (replace_non_alnum t) = c # rstrip (replace_non_alnum cs)"
            using \<open>t = c # cs\<close> c ne by (simp add: rstrip_cons)
          ultimately show ?thesis using ih by simp
        next
          case False
          let ?d = "dropWhile (\<lambda>x. \<not> is_alnum x) ds"
          have len: "length ?d < length t"
            using \<open>t = c # cs\<close> cs length_dropWhile_le [of "\<lambda>x. \<not> is_alnum x" ds] by simp
          have start: "?d = [] \<or> is_alnum (hd ?d)"
            using hd_dropWhile [of "\<lambda>x. \<not> is_alnum x" ds] by auto
          have ih: "rstrip (replace_non_alnum ?d) = join_hyphen (slug_words ?d)"
            using "1.IH" len start by blast
          have r: "replace_non_alnum t = c # CHR ''-'' # replace_non_alnum ?d"
            using \<open>t = c # cs\<close> cs c False by simp
          have w: "slug_words t = [c] # slug_words ?d"
            using \<open>t = c # cs\<close> cs c False by (simp add: words_skip)
          show ?thesis
          proof (cases "?d = []")
            case True
            from r have r': "replace_non_alnum t = [c, CHR ''-'']"
              by (simp only: True replace_non_alnum.simps)
            from w have w': "slug_words t = [[c]]"
              by (simp only: True slug_words.simps)
            show ?thesis
              by (simp add: r' w' rstrip_def)
          next
            case False
            then have "replace_non_alnum ?d \<noteq> []" by (simp add: replace_nil)
            then have "rstrip (replace_non_alnum t) = c # CHR ''-'' # rstrip (replace_non_alnum ?d)"
              using r by (simp add: rstrip_cons)
            moreover have "slug_words ?d \<noteq> []"
              using False start by (cases ?d) auto
            then have "join_hyphen (slug_words t) = c # CHR ''-'' # join_hyphen (slug_words ?d)"
              using w by (cases "slug_words ?d") auto
            ultimately show ?thesis using ih by simp
          qed
        qed
      qed
    qed
  qed
qed

lemma baseSlug_words_raw: "strip_hyphens (replace_non_alnum t) = join_hyphen (slug_words t)"
proof (cases t)
  case Nil
  then show ?thesis by (simp add: strip_hyphens_def)
next
  case (Cons c cs)
  show ?thesis
  proof (cases "is_alnum c")
    case True
    then have "c \<noteq> CHR ''-''" using hyphen_not_alnum by auto
    then show ?thesis
      using replace_words [of t] Cons True by (simp add: strip_hyphens_alt)
  next
    case False
    let ?d = "dropWhile (\<lambda>x. \<not> is_alnum x) cs"
    have "?d = [] \<or> is_alnum (hd ?d)"
      using hd_dropWhile [of "\<lambda>x. \<not> is_alnum x" cs] by auto
    then have "rstrip (replace_non_alnum ?d) = join_hyphen (slug_words ?d)"
      using replace_words [of ?d] by blast
    then show ?thesis
      using Cons False by (simp add: strip_hyphens_alt words_skip)
  qed
qed

lemma baseSlug_words: "baseSlug nm = join_hyphen (slug_words (toLowerCase nm))"
  by (simp add: baseSlug_def baseSlug_words_raw)

lemma lower_slug_char: "slug_char c \<Longrightarrow> toLowerCase_char c = c"
  by (auto simp: slug_char_def is_alnum_def toLowerCase_char_def Let_def)

lemma lower_slug: "list_all slug_char s \<Longrightarrow> toLowerCase s = s"
  by (induction s) (auto simp: toLowerCase_def lower_slug_char)

lemma dec_chars: "list_all slug_char (dec n)"
proof (induction n rule: dec.induct)
  case (1 n)
  have d: "slug_char (char_of (48 + k))" if "k < 10" for k :: nat
    using that by (simp add: slug_char_def is_alnum_def Let_def)
  show ?case
  proof (cases "n < 10")
    case True
    then show ?thesis by (subst dec.simps) (simp add: d)
  next
    case False
    with 1 show ?thesis by (subst dec.simps) (simp add: d)
  qed
qed

lemma candidate_chars: "list_all slug_char b \<Longrightarrow> list_all slug_char (candidate b j)"
  by (cases j) (auto simp: dec_chars slug_char_def)

lemma upsert_others: "q \<in> set (upsertProduct p ps) \<Longrightarrow> pid q \<noteq> pid p \<Longrightarrow> q \<in> set ps"
  by (auto simp: upsertProduct_def split: if_splits)

lemma generateSlug_unmodified: "''name'' \<notin> set modified \<Longrightarrow> generateSlug modified ps p = p"
  by (simp add: generateSlug_def)

lemma generateSlug_modified:
  assumes "''name'' \<in> set modified"
  shows "\<exists>j. slug (generateSlug modified ps p) = Some (candidate (baseSlug (name p)) j)
           \<and> (\<forall>i<j. slug_taken ps (pid p) (candidate (baseSlug (name p)) i))
           \<and> \<not> slug_taken ps (pid p) (candidate (baseSlug (name p)) j)"
proof -
  let ?b = "baseSlug (name p)"
  let ?u = "uniqueSlug ps (pid p) ?b ?b 1"
  from uniqueSlug_first [of 1 0 ?b ?b ps "pid p"]
  obtain j where j: "?u = candidate ?b j" "\<forall>i<j. slug_taken ps (pid p) (candidate ?b i)"
    by auto
  have "list_all slug_char ?b"
    using baseSlug_shape [of "name p"] by (simp add: slug_shape_def)
  then have "toLowerCase ?u = ?u"
    unfolding j(1) by (intro lower_slug candidate_chars)
  then have "slug (generateSlug modified ps p) = Some (candidate ?b j)"
    using assms j(1) by (simp add: generateSlug_def Let_def)
  moreover have "\<not> slug_taken ps (pid p) (candidate ?b j)"
    using uniqueSlug_free [of ps "pid p" ?b ?b 1] j(1) by simp
  ultimately show ?thesis using j(2) by blast
qed

lemma save_new_name:
  assumes v: "validate_product p" and m: "''name'' \<in> set modified"
    and n: "isNew = (findProduct (products st) (pid p) = None)"
  shows "\<exists>j p' st' q. saveProduct isNew modified p st = Inr (p', st')
           \<and> slug p' = Some (candidate (baseSlug (name p)) j)
           \<and> (\<forall>i<j. slug_taken (products st) (pid p) (candidate (baseSlug (name p)) i))
           \<and> \<not> slug_taken (products st) (pid p) (candidate (baseSlug (name p)) j)
           \<and> findProduct (products st') (pid p) = Some q \<and> slug q = slug p'
           \<and> (\<forall>x \<in> set (products st'). pid x \<noteq> pid p \<longrightarrow> slug x \<noteq> slug p')"
proof -
  let ?ps = "products st"
  let ?p2 = "generateSlug modified ?ps (syncCategory p)"
  let ?b = "baseSlug (name p)"
  from generateSlug_modified [OF m, of ?ps "syncCategory p"]
  obtain j where j: "slug ?p2 = Some (candidate ?b j)"
      "\<forall>i<j. slug_taken ?ps (pid p) (candidate ?b i)"
      "\<not> slug_taken ?ps (pid p) (candidate ?b j)"
    by (auto simp: syncCategory_keeps)
  have id2: "pid ?p2 = pid p"
    by (simp add: generateSlug_keeps syncCategory_keeps)
  have free: "\<And>x. x \<in> set ?ps \<Longrightarrow> pid x \<noteq> pid p \<Longrightarrow> slug x \<noteq> slug ?p2"
    using j(1,3) by (auto simp: slug_taken_def)
  show ?thesis
  proof (cases isNew)
    case True
    with n have none: "findProduct ?ps (pid p) = None" by simp
    have noconf: "\<not> slug_conflict ?ps ?p2"
      using j(1,3) id2 by (simp add: slug_conflict_def)
    let ?st' = "st\<lparr>products := ?ps @ [?p2]\<rparr>"
    have saved: "saveProduct isNew modified p st = Inr (?p2, ?st')"
      using v noconf none True id2 by (simp add: saveProduct_def Let_def)
    have stored: "findProduct (products ?st') (pid p) = Some ?p2"
      using findProduct_append [of ?ps ?p2] none id2 by simp
    have "\<forall>x \<in> set (products ?st'). pid x \<noteq> pid p \<longrightarrow> slug x \<noteq> slug ?p2"
      using free id2 by auto
    with saved stored j show ?thesis by blast
  next
    case False
    with n obtain q where q: "findProduct ?ps (pid p) = Some q" by auto
    let ?q' = "writePaths (savedPaths modified p) ?p2 q"
    have idq: "pid ?q' = pid p"
      using findProduct_pid [OF q] by (simp add: writePaths_pid)
    have slugq: "slug ?q' = slug ?p2"
      using m by (simp add: writePaths_def savedPaths_def)
    have noconf: "\<not> slug_conflict ?ps ?q'"
      using j(1,3) idq slugq by (simp add: slug_conflict_def)
    let ?st' = "st\<lparr>products := upsertProduct ?q' ?ps\<rparr>"
    have saved: "saveProduct isNew modified p st = Inr (?p2, ?st')"
      using v noconf q False id2 by (simp add: saveProduct_def Let_def)
    have stored: "findProduct (products ?st') (pid p) = Some ?q'"
      using findProduct_upsert [of ?q' ?ps] idq by simp
    have "\<forall>x \<in> set (products ?st'). pid x \<noteq> pid p \<longrightarrow> slug x \<noteq> slug ?p2"
    proof (intro ballI impI)
      fix x assume x: "x \<in> set (products ?st')" "pid x \<noteq> pid p"
      then have "x \<in> set ?ps"
        using upsert_others [of x ?q' ?ps] idq by simp
      with x(2) show "slug x \<noteq> slug ?p2" using free by blast
    qed
    with saved stored slugq j show ?thesis by blast
  qed
qed

lemma save_old_name:
  "''name'' \<notin> set modified \<Longrightarrow> saveProduct isNew modified p st = Inr (p', st') \<Longrightarrow>
   slug p' = slug p"
  using saveProduct_Inr [of isNew modified p st p' st']
  by (simp add: generateSlug_unmodified syncCategory_keeps)

lemma save_old_name_stored:
  assumes "''name'' \<notin> set modified" "''slug'' \<notin> set modified"
    and ok: "saveProduct False modified p st = Inr (p', st')"
    and q: "findProduct (products st) (pid p) = Some q"
  shows "\<exists>q'. findProduct (products st') (pid p) = Some q' \<and> slug q' = slug q"
proof -
  let ?q' = "writePaths (savedPaths modified p) p' q"
  from saveProduct_loaded [OF ok] q
  have st': "products st' = upsertProduct ?q' (products st)"
    by auto
  have id: "pid ?q' = pid p"
    using findProduct_pid [OF q] by (simp add: writePaths_pid)
  have "slug ?q' = slug q"
    using assms(1,2) by (simp add: writePaths_def savedPaths_def)
  moreover have "findProduct (products st') (pid p) = Some ?q'"
    using findProduct_upsert [of ?q' "products st"] st' id by simp
  ultimately show ?thesis by simp
qed

subsection \<open>Two products of one name\<close>

lemma first_red_dress:
  "createProduct shop_env red_dress empty_shop
     = (Inr (dress ''p1'' (Some ''red-dress'')), shop_of [dress ''p1'' (Some ''red-dress'')])"
  by code_simp

lemma second_red_dress:
  "createProduct (shop_env\<lparr>newId := ''p2''\<rparr>) red_dress (shop_of [dress ''p1'' (Some ''red-dress'')])
     = (Inr (dress ''p2'' (Some ''red-dress-1'')),
        shop_of [dress ''p1'' (Some ''red-dress''), dress ''p2'' (Some ''red-dress-1'')])"
  by code_simp

text \<open>
  C3. The base slug of a name is the words of the lower-cased name joined by single
  hyphens: every run of characters that are neither letters nor digits has become one
  hyphen between two words, and none is left at either end. So it has the shape of a slug
  and keeps exactly the letters and digits of the lower-cased name, in their order. A save
  that modified the name never fails on the slug: it stores the first of \<open>base\<close>,
  \<open>base-1\<close>, \<open>base-2\<close>, ... that no other product holds (the saved document's own
  identifier is left out of the search), and afterwards no other stored product has that
  slug. A save that did not modify the name leaves the slug as it was, in the answered
  document and, for a loaded document whose slug was not modified either, in the stored
  one. Creating two products named Red Dress gives the slugs \<open>red-dress\<close> and
  \<open>red-dress-1\<close>.
\<close>

theorem product_slug_generation:
  "baseSlug nm = join_hyphen (slug_words (toLowerCase nm))
   \<and> slug_shape (baseSlug nm)
   \<and> filter is_alnum (baseSlug nm) = filter is_alnum (toLowerCase nm)
   \<and> (validate_product p \<and> ''name'' \<in> set modified
        \<and> isNew = (findProduct (products st) (pid p) = None) \<longrightarrow>
        (\<exists>j p' st' q. saveProduct isNew modified p st = Inr (p', st')
           \<and> slug p' = Some (candidate (baseSlug (name p)) j)
           \<and> (\<forall>i<j. slug_taken (products st) (pid p) (candidate (baseSlug (name p)) i))
           \<and> \<not> slug_taken (products st) (pid p) (candidate (baseSlug (name p)) j)
           \<and> findProduct (products st') (pid p) = Some q \<and> slug q = slug p'
           \<and> (\<forall>x \<in> set (products st'). pid x \<noteq> pid p \<longrightarrow> slug x \<noteq> slug p')))
   \<and> (''name'' \<notin> set modified \<and> saveProduct isNew modified p st = Inr (r, st2) \<longrightarrow> slug r = slug p)
   \<and> (''name'' \<notin> set modified \<and> ''slug'' \<notin> set modified
        \<and> saveProduct False modified p st = Inr (r, st2)
        \<and> findProduct (products st) (pid p) = Some q0 \<longrightarrow>
        (\<exists>q'. findProduct (products st2) (pid p) = Some q' \<and> slug q' = slug q0))
   \<and> createProduct shop_env red_dress empty_shop
       = (Inr (dress ''p1'' (Some ''red-dress'')), shop_of [dress ''p1'' (Some ''red-dress'')])
   \<and> createProduct (shop_env\<lparr>newId := ''p2''\<rparr>) red_dress (shop_of [dress ''p1'' (Some ''red-dress'')])
       = (Inr (dress ''p2'' (Some ''red-dress-1'')),
          shop_of [dress ''p1'' (Some ''red-dress''), dress ''p2'' (Some ''red-dress-1'')])"
  using baseSlug_words [of nm] baseSlug_shape [of nm] baseSlug_alnum [of nm]
    save_new_name [of p modified isNew st] save_old_name [of modified isNew p st r st2]
    save_old_name_stored [of modified p st r st2 q0] first_red_dress second_red_dress
  by blast

lemma dress_valid: "validate_product (dress ''p2'' None)"
  by code_simp

lemma dress_view_save:
  "saveProduct False [''views''] (dress ''p1'' (Some ''red-dress'')\<lparr>views := 1\<rparr>)
      (shop_of [dress ''p1'' (Some ''red-dress'')])
     = Inr (dress ''p1'' (Some ''red-dress'')\<lparr>views := 1\<rparr>,
            shop_of [dress ''p1'' (Some ''red-dress'')\<lparr>views := 1\<rparr>])"
  by code_simp

lemma summer_dress:
  "baseSlug ''  Summer -- Dress!! (2024) '' = ''summer-dress-2024''
   \<and> slug_words (toLowerCase ''  Summer -- Dress!! (2024) '') = [''summer'', ''dress'', ''2024'']"
  by code_simp

theorem product_slug_generation_witness:
  "validate_product (dress ''p2'' None)
   \<and> findProduct [dress ''p1'' (Some ''red-dress'')] ''p2'' = None
   \<and> (\<exists>j p' st' q. saveProduct True [''name''] (dress ''p2'' None) (shop_of [dress ''p1'' (Some ''red-dress'')])
          = Inr (p', st')
        \<and> slug p' = Some (candidate (baseSlug ''Red Dress'') j)
        \<and> \<not> slug_taken [dress ''p1'' (Some ''red-dress'')] ''p2'' (candidate (baseSlug ''Red Dress'') j)
        \<and> findProduct (products st') ''p2'' = Some q \<and> slug q = slug p')
   \<and> slug_taken [dress ''p1'' (Some ''red-dress'')] ''p2'' (candidate (baseSlug ''Red Dress'') 0)
   \<and> \<not> slug_taken [dress ''p1'' (Some ''red-dress'')] ''p2'' (candidate (baseSlug ''Red Dress'') 1)
   \<and> slug (dress ''p1'' (Some ''red-dress'')\<lparr>views := 1\<rparr>) = slug (dress ''p1'' (Some ''red-dress''))
   \<and> baseSlug ''  Summer -- Dress!! (2024) '' = ''summer-dress-2024''
   \<and> join_hyphen (slug_words (toLowerCase ''  Summer -- Dress!! (2024) '')) = ''summer-dress-2024''"
proof -
  note t = product_slug_generation [of _ "dress ''p2'' None" "[''name'']" True
      "shop_of [dress ''p1'' (Some ''red-dress'')]"]
  have nm: "name (dress ''p2'' None) = ''Red Dress''" "pid (dress ''p2'' None) = ''p2''"
    "products (shop_of [dress ''p1'' (Some ''red-dress'')]) = [dress ''p1'' (Some ''red-dress'')]"
    by (simp_all add: dress_def shop_of_def empty_shop_def)
  have none: "findProduct [dress ''p1'' (Some ''red-dress'')] ''p2'' = None"
    by code_simp
  have a: "\<exists>j p' st' q. saveProduct True [''name''] (dress ''p2'' None) (shop_of [dress ''p1'' (Some ''red-dress'')])
          = Inr (p', st')
        \<and> slug p' = Some (candidate (baseSlug ''Red Dress'') j)
        \<and> \<not> slug_taken [dress ''p1'' (Some ''red-dress'')] ''p2'' (candidate (baseSlug ''Red Dress'') j)
        \<and> findProduct (products st') ''p2'' = Some q \<and> slug q = slug p'"
    using t dress_valid none unfolding nm by fastforce
  have b: "slug_taken [dress ''p1'' (Some ''red-dress'')] ''p2'' (candidate (baseSlug ''Red Dress'') 0)"
    by code_simp
  have c: "\<not> slug_taken [dress ''p1'' (Some ''red-dress'')] ''p2'' (candidate (baseSlug ''Red Dress'') 1)"
    by code_simp
  have d: "slug (dress ''p1'' (Some ''red-dress'')\<lparr>views := 1\<rparr>) = slug (dress ''p1'' (Some ''red-dress''))"
    using product_slug_generation [where modified = "[''views'']" and isNew = False
        and p = "dress ''p1'' (Some ''red-dress'')\<lparr>views := 1\<rparr>"
        and st = "shop_of [dress ''p1'' (Some ''red-dress'')]"
        and r = "dress ''p1'' (Some ''red-dress'')\<lparr>views := 1\<rparr>"
        and ?st2.0 = "shop_of [dress ''p1'' (Some ''red-dress'')\<lparr>views := 1\<rparr>]"]
      dress_view_save
    by simp
  have e: "baseSlug ''  Summer -- Dress!! (2024) '' = ''summer-dress-2024''"
    using summer_dress by simp
  then have f: "join_hyphen (slug_words (toLowerCase ''  Summer -- Dress!! (2024) '')) = ''summer-dress-2024''"
    using product_slug_generation [of "''  Summer -- Dress!! (2024) ''"] by simp
  from dress_valid none a b c d e f show ?thesis by blast
qed

section \<open>Verification: the writing product routes\<close>

lemma filterCategories_alt:
  "filterCategories cs = filter (\<lambda>c. c \<noteq> None \<and> c \<noteq> Some []) cs"
  unfolding filterCategories_def
  by (rule filter_cong) (auto simp: truthy_id_def split: option.splits)

lemma ids_of_nil: "list_all truthy_id cs \<Longrightarrow> ids_of cs = [] \<longleftrightarrow> cs = []"
  by (cases cs) (auto simp: ids_of_def truthy_id_def split: option.splits)

lemma filterCategories_truthy: "list_all truthy_id (filterCategories cs)"
  by (simp add: filterCategories_def list_all_iff)

lemma ids_of_filtered_nil: "ids_of (filterCategories cs) = [] \<longleftrightarrow> filterCategories cs = []"
  by (rule ids_of_nil [OF filterCategories_truthy])

lemma createProduct_empty:
  "filterCategories (b_categories body) = [] \<Longrightarrow>
   createProduct e body st =
     (Inl (if b_errors body \<noteq> [] then ValidationErrors (b_errors body)
           else BadRequest ''At least one category is required''), st)"
  by (simp add: createProduct_def ids_of_def)

lemma createProduct_Inr:
  assumes "createProduct e body st = (Inr p, st')"
  shows "categories p = ids_of (filterCategories (b_categories body)) \<and> categories p \<noteq> []
         \<and> findProduct (products st') (pid p) = Some p"
proof -
  let ?f = "ids_of (filterCategories (b_categories body))"
  from assms obtain imgs where
    ne: "?f \<noteq> []" and
    sv: "saveProduct True [''name'', ''categories'', ''images'', ''price'', ''sizes'', ''color'',
                        ''isFeatured''] (newProduct e body ?f imgs) st = Inr (p, st')"
    by (auto simp: createProduct_def Let_def split: if_splits option.splits sum.splits)
  from save_new_stored [OF sv] have "categories p = categories (newProduct e body ?f imgs)"
    "findProduct (products st') (pid p) = Some p"
    by blast+
  with ne show ?thesis by (simp add: newProduct_def)
qed

lemma updateProduct_empty:
  "u_categories u = Some cs \<Longrightarrow> filterCategories cs = [] \<Longrightarrow>
   updateProduct e i u st =
     (Inl (if u_errors u \<noteq> [] then ValidationErrors (u_errors u)
           else if findProduct (products st) i = None then NotFound ''Product not found''
           else BadRequest ''At least one category is required''), st)"
  by (auto simp: updateProduct_def Let_def split: option.splits)

lemma applyUpdate_pid: "pid (applyUpdate u p) = pid p"
  by (simp add: applyUpdate_def)

lemma findByIdAndUpdate_Inr:
  assumes "findByIdAndUpdate i u st = Inr (Some p', st')"
  shows "\<exists>p. findProduct (products st) i = Some p \<and> p' = applyUpdate u p
             \<and> st' = st\<lparr>products := upsertProduct p' (products st)\<rparr>"
  using assms
  by (auto simp: findByIdAndUpdate_def Let_def split: if_splits option.splits)

lemma updateProduct_Inr:
  assumes "updateProduct e i u st = (Inr (Some p'), st')"
  shows "\<exists>p imgs. findProduct (products st) i = Some p
           \<and> p' = applyUpdate (u\<lparr>u_categories := map_option filterCategories (u_categories u),
                                  u_images := imgs\<rparr>) p
           \<and> map_option filterCategories (u_categories u) \<noteq> Some []
           \<and> st' = st\<lparr>products := upsertProduct p' (products st)\<rparr>"
proof -
  from assms obtain imgs where
    ne: "map_option filterCategories (u_categories u) \<noteq> Some []" and
    upd: "findByIdAndUpdate i (u\<lparr>u_categories := map_option filterCategories (u_categories u),
                                  u_images := imgs\<rparr>) st = Inr (Some p', st')"
    by (auto simp: updateProduct_def Let_def split: if_splits option.splits sum.splits)
  from findByIdAndUpdate_Inr [OF upd] ne show ?thesis by blast
qed

lemma updateProduct_categories:
  assumes "updateProduct e i u st = (Inr (Some p'), st')" "u_categories u = Some cs"
  shows "categories p' = ids_of (filterCategories cs) \<and> categories p' \<noteq> []
         \<and> findProduct (products st') i = Some p'"
proof -
  from updateProduct_Inr [OF assms(1)] obtain p imgs where
    p: "findProduct (products st) i = Some p"
    "p' = applyUpdate (u\<lparr>u_categories := map_option filterCategories (u_categories u),
                                  u_images := imgs\<rparr>) p"
    "map_option filterCategories (u_categories u) \<noteq> Some []"
    "st' = st\<lparr>products := upsertProduct p' (products st)\<rparr>"
    by blast
  have c: "categories p' = ids_of (filterCategories cs)"
    using p(2) assms(2) by (simp add: applyUpdate_def or_else_def)
  moreover have "categories p' \<noteq> []"
    using c p(3) assms(2) by (simp add: ids_of_filtered_nil)
  moreover have "pid p' = i"
    using p(1,2) by (simp add: applyUpdate_pid findProduct_pid)
  then have "findProduct (products st') i = Some p'"
    using p(4) findProduct_upsert [of p' "products st"] by simp
  ultimately show ?thesis by simp
qed

text \<open>An update body that sets nothing.\<close>

definition no_change :: product_update where
  "no_change = \<lparr>u_errors = [], u_name = None, u_categories = None, u_category = None,
     u_slug = None, u_images = None, u_price = None, u_sizes = None, u_color = None,
     u_isAvailable = None, u_isFeatured = None\<rparr>"

text \<open>
  C7. The create route and the update route keep of a \<open>categories\<close> list the entries that
  are neither \<open>null\<close> nor \<open>undefined\<close> (nor the empty string). When nothing is left the
  request is answered with an error and the database is unchanged: the field violations
  when express-validator reported some, 404 when the product to update does not exist, and
  otherwise 400 with the message of the category rule. A product these routes write with a
  \<open>categories\<close> list of the body has exactly the kept entries, and at least one.
\<close>

theorem empty_categories_rejected:
  "filterCategories cs = filter (\<lambda>c. c \<noteq> None \<and> c \<noteq> Some []) cs
   \<and> (filterCategories (b_categories body) = [] \<longrightarrow>
        createProduct e body st =
          (Inl (if b_errors body \<noteq> [] then ValidationErrors (b_errors body)
                else BadRequest ''At least one category is required''), st))
   \<and> (createProduct e body st = (Inr p, st') \<longrightarrow>
        categories p = ids_of (filterCategories (b_categories body)) \<and> categories p \<noteq> []
        \<and> findProduct (products st') (pid p) = Some p)
   \<and> (u_categories u = Some cs \<and> filterCategories cs = [] \<longrightarrow>
        updateProduct e i u st =
          (Inl (if u_errors u \<noteq> [] then ValidationErrors (u_errors u)
                else if findProduct (products st) i = None then NotFound ''Product not found''
                else BadRequest ''At least one category is required''), st))
   \<and> (u_categories u = Some cs \<and> updateProduct e i u st = (Inr (Some p2), st2) \<longrightarrow>
        categories p2 = ids_of (filterCategories cs) \<and> categories p2 \<noteq> []
        \<and> findProduct (products st2) i = Some p2)"
  using filterCategories_alt [of cs] createProduct_empty [of body e st]
    createProduct_Inr [of e body st p st'] updateProduct_empty [of u cs e i st]
    updateProduct_categories [of e i u st p2 st2 cs]
  by blast

lemma create_filtered:
  "createProduct shop_env (red_dress\<lparr>b_categories := [None, Some ''c1'', Some []]\<rparr>) empty_shop
     = (Inr (dress ''p1'' (Some ''red-dress'')), shop_of [dress ''p1'' (Some ''red-dress'')])"
  by code_simp

lemma update_filtered:
  "updateProduct shop_env ''p1'' (no_change\<lparr>u_categories := Some [None, Some ''c2'']\<rparr>)
      (shop_of [dress ''p1'' (Some ''red-dress'')])
     = (Inr (Some (dress ''p1'' (Some ''red-dress'')\<lparr>categories := [''c2'']\<rparr>)),
        shop_of [dress ''p1'' (Some ''red-dress'')\<lparr>categories := [''c2'']\<rparr>])"
  by code_simp

theorem empty_categories_rejected_witness:
  "createProduct shop_env (red_dress\<lparr>b_categories := [None, Some []]\<rparr>) empty_shop
     = (Inl (BadRequest ''At least one category is required''), empty_shop)
   \<and> updateProduct shop_env ''p1'' (no_change\<lparr>u_categories := Some [None]\<rparr>)
        (shop_of [dress ''p1'' (Some ''red-dress'')])
     = (Inl (BadRequest ''At least one category is required''), shop_of [dress ''p1'' (Some ''red-dress'')])
   \<and> createProduct shop_env (red_dress\<lparr>b_categories := [None, Some ''c1'', Some []]\<rparr>) empty_shop
     = (Inr (dress ''p1'' (Some ''red-dress'')), shop_of [dress ''p1'' (Some ''red-dress'')])
   \<and> categories (dress ''p1'' (Some ''red-dress'')) = [''c1'']
   \<and> updateProduct shop_env ''p1'' (no_change\<lparr>u_categories := Some [None, Some ''c2'']\<rparr>)
        (shop_of [dress ''p1'' (Some ''red-dress'')])
     = (Inr (Some (dress ''p1'' (Some ''red-dress'')\<lparr>categories := [''c2'']\<rparr>)),
        shop_of [dress ''p1'' (Some ''red-dress'')\<lparr>categories := [''c2'']\<rparr>])
   \<and> categories (dress ''p1'' (Some ''red-dress'')\<lparr>categories := [''c2'']\<rparr>) = [''c2'']"
proof -
  have f1: "filterCategories (b_categories (red_dress\<lparr>b_categories := [None, Some []]\<rparr>)) = []"
    "b_errors (red_dress\<lparr>b_categories := [None, Some []]\<rparr>) = []"
    by (simp_all add: filterCategories_def truthy_id_def red_dress_def)
  have a: "createProduct shop_env (red_dress\<lparr>b_categories := [None, Some []]\<rparr>) empty_shop
     = (Inl (BadRequest ''At least one category is required''), empty_shop)"
    using empty_categories_rejected [where body = "red_dress\<lparr>b_categories := [None, Some []]\<rparr>"
        and e = shop_env and st = empty_shop] f1
    by simp
  have f2: "u_categories (no_change\<lparr>u_categories := Some [None]\<rparr>) = Some [None]"
    "filterCategories [None] = []" "u_errors (no_change\<lparr>u_categories := Some [None]\<rparr>) = []"
    "findProduct (products (shop_of [dress ''p1'' (Some ''red-dress'')])) ''p1'' \<noteq> None"
    by (simp_all add: filterCategories_def truthy_id_def no_change_def shop_of_def findProduct_def
        dress_def)
  have b: "updateProduct shop_env ''p1'' (no_change\<lparr>u_categories := Some [None]\<rparr>)
        (shop_of [dress ''p1'' (Some ''red-dress'')])
     = (Inl (BadRequest ''At least one category is required''), shop_of [dress ''p1'' (Some ''red-dress'')])"
    using empty_categories_rejected [where u = "no_change\<lparr>u_categories := Some [None]\<rparr>"
        and cs = "[None]" and e = shop_env and i = "''p1''"
        and st = "shop_of [dress ''p1'' (Some ''red-dress'')]"] f2
    by simp
  have g1: "ids_of (filterCategories (b_categories (red_dress\<lparr>b_categories := [None, Some ''c1'', Some []]\<rparr>))) = [''c1'']"
    by (simp add: filterCategories_def truthy_id_def ids_of_def)
  have c: "categories (dress ''p1'' (Some ''red-dress'')) = [''c1'']"
    using empty_categories_rejected [where body = "red_dress\<lparr>b_categories := [None, Some ''c1'', Some []]\<rparr>"
        and e = shop_env and st = empty_shop and p = "dress ''p1'' (Some ''red-dress'')"
        and st' = "shop_of [dress ''p1'' (Some ''red-dress'')]"] create_filtered g1
    by simp
  have g2: "ids_of (filterCategories [None, Some ''c2'']) = [''c2'']"
    "u_categories (no_change\<lparr>u_categories := Some [None, Some ''c2'']\<rparr>) = Some [None, Some ''c2'']"
    by (simp_all add: filterCategories_def truthy_id_def ids_of_def)
  have d: "categories (dress ''p1'' (Some ''red-dress'')\<lparr>categories := [''c2'']\<rparr>) = [''c2'']"
    using empty_categories_rejected [where u = "no_change\<lparr>u_categories := Some [None, Some ''c2'']\<rparr>"
        and cs = "[None, Some ''c2'']" and e = shop_env and i = "''p1''"
        and st = "shop_of [dress ''p1'' (Some ''red-dress'')]"
        and ?p2.0 = "dress ''p1'' (Some ''red-dress'')\<lparr>categories := [''c2'']\<rparr>"
        and ?st2.0 = "shop_of [dress ''p1'' (Some ''red-dress'')\<lparr>categories := [''c2'']\<rparr>]"]
      update_filtered g2
    by simp
  from a b c d create_filtered update_filtered show ?thesis by blast
qed

text \<open>
  C9. The update route writes the body with \<open>findByIdAndUpdate\<close>, which runs neither hook
  of the schema. When the body carries no \<open>category\<close>, the legacy field of the updated
  product is what it was, whatever \<open>categories\<close> becomes; when the body carries no \<open>slug\<close>,
  the slug is what it was, whatever \<open>name\<close> becomes.
\<close>

theorem update_bypasses_hooks:
  "updateProduct e i u st = (Inr (Some p'), st') \<Longrightarrow> findProduct (products st) i = Some p \<Longrightarrow>
     (u_category u = None \<longrightarrow> category p' = category p)
   \<and> (u_slug u = None \<longrightarrow> slug p' = slug p)
   \<and> name p' = or_else (u_name u) (name p)
   \<and> categories p' = (case u_categories u of None \<Rightarrow> categories p
                       | Some cs \<Rightarrow> ids_of (filterCategories cs))
   \<and> findProduct (products st') i = Some p'"
proof -
  assume a: "updateProduct e i u st = (Inr (Some p'), st')"
    and f: "findProduct (products st) i = Some p"
  from updateProduct_Inr [OF a] f obtain imgs where
    p: "p' = applyUpdate (u\<lparr>u_categories := map_option filterCategories (u_categories u),
                                  u_images := imgs\<rparr>) p"
    "st' = st\<lparr>products := upsertProduct p' (products st)\<rparr>"
    by auto
  have "pid p' = i"
    using p(1) f by (simp add: applyUpdate_pid findProduct_pid)
  then have "findProduct (products st') i = Some p'"
    using p(2) findProduct_upsert [of p' "products st"] by simp
  with p(1) show ?thesis
    by (auto simp: applyUpdate_def or_else_def split: option.splits)
qed

lemma update_rename:
  "updateProduct shop_env ''p1''
      (no_change\<lparr>u_name := Some ''Blue Coat'', u_categories := Some [Some ''c2'']\<rparr>)
      (shop_of [dress ''p1'' (Some ''red-dress'')])
     = (Inr (Some (dress ''p1'' (Some ''red-dress'')\<lparr>name := ''Blue Coat'', categories := [''c2'']\<rparr>)),
        shop_of [dress ''p1'' (Some ''red-dress'')\<lparr>name := ''Blue Coat'', categories := [''c2'']\<rparr>])"
  by code_simp

lemma blue_coat: "baseSlug ''Blue Coat'' = ''blue-coat''"
  by code_simp

theorem update_bypasses_hooks_witness:
  "updateProduct shop_env ''p1''
      (no_change\<lparr>u_name := Some ''Blue Coat'', u_categories := Some [Some ''c2'']\<rparr>)
      (shop_of [dress ''p1'' (Some ''red-dress'')])
     = (Inr (Some (dress ''p1'' (Some ''red-dress'')\<lparr>name := ''Blue Coat'', categories := [''c2'']\<rparr>)),
        shop_of [dress ''p1'' (Some ''red-dress'')\<lparr>name := ''Blue Coat'', categories := [''c2'']\<rparr>])
   \<and> category (dress ''p1'' (Some ''red-dress'')\<lparr>name := ''Blue Coat'', categories := [''c2'']\<rparr>)
       = Some ''c1''
   \<and> categories (dress ''p1'' (Some ''red-dress'')\<lparr>name := ''Blue Coat'', categories := [''c2'']\<rparr>)
       = [''c2'']
   \<and> slug (dress ''p1'' (Some ''red-dress'')\<lparr>name := ''Blue Coat'', categories := [''c2'']\<rparr>)
       = Some ''red-dress''
   \<and> baseSlug (name (dress ''p1'' (Some ''red-dress'')\<lparr>name := ''Blue Coat'', categories := [''c2'']\<rparr>))
       = ''blue-coat''"
proof -
  have f: "findProduct (products (shop_of [dress ''p1'' (Some ''red-dress'')])) ''p1''
      = Some (dress ''p1'' (Some ''red-dress''))"
    by (simp add: shop_of_def findProduct_def dress_def)
  have u: "u_category (no_change\<lparr>u_name := Some ''Blue Coat'', u_categories := Some [Some ''c2'']\<rparr>) = None"
    "u_slug (no_change\<lparr>u_name := Some ''Blue Coat'', u_categories := Some [Some ''c2'']\<rparr>) = None"
    by (simp_all add: no_change_def)
  have d: "category (dress ''p1'' (Some ''red-dress'')) = Some ''c1''"
    "slug (dress ''p1'' (Some ''red-dress'')) = Some ''red-dress''"
    by (simp_all add: dress_def)
  from update_bypasses_hooks [OF update_rename f] u d
  have "category (dress ''p1'' (Some ''red-dress'')\<lparr>name := ''Blue Coat'', categories := [''c2'']\<rparr>)
       = Some ''c1''"
    "slug (dress ''p1'' (Some ''red-dress'')\<lparr>name := ''Blue Coat'', categories := [''c2'']\<rparr>)
       = Some ''red-dress''"
    by simp_all
  then show ?thesis
    using update_rename blue_coat by simp
qed

section \<open>Verification: listing by category\<close>

text \<open>
  The products the specification names for a category: the available ones that hold the
  category in the legacy field or in the array. A query that filters by the category alone.
\<close>

definition category_products :: "objectId \<Rightarrow> product list \<Rightarrow> product list" where
  "category_products c ps =
     filter (\<lambda>p. isAvailable p \<and> (category p = Some c \<or> c \<in> set (categories p))) ps"

definition category_only :: "objectId \<Rightarrow> product_query \<Rightarrow> bool" where
  "category_only c q =
     (q_category q = Some c \<and> c \<noteq> [] \<and> q_search q = None \<and> q_minPrice q = None
      \<and> q_maxPrice q = None \<and> q_size q = None \<and> q_color q = None \<and> q_featured q = None)"

lemma productFilter_category_only:
  "category_only c q \<Longrightarrow>
   productFilter g q p = (isAvailable p \<and> (category p = Some c \<or> c \<in> set (categories p)))"
  by (simp add: category_only_def productFilter_def truthy_def categoryMatch_def)

lemma found_category_only:
  "category_only c q \<Longrightarrow> filter (productFilter g q) ps = category_products c ps"
  unfolding category_products_def
  by (rule filter_cong) (simp_all add: productFilter_category_only)

lemma found_by_category:
  "filter (\<lambda>p. categoryMatch c p \<and> isAvailable p) ps = category_products c ps"
  unfolding category_products_def
  by (rule filter_cong) (auto simp: categoryMatch_def)

lemma paginate_subset: "paginate page limit xs = Some ys \<Longrightarrow> set ys \<subseteq> set xs"
  by (auto simp: paginate_def Let_def split: if_splits dest: in_set_takeD in_set_dropD)

lemma paginate_all:
  "paginate 1 limit xs = Some ys \<Longrightarrow> limit = 0 \<or> length xs \<le> limit \<Longrightarrow> ys = xs"
  by (auto simp: paginate_def Let_def split: if_splits)

lemma listProducts_Inr:
  "listProducts g r q st = (Inr pg, st') \<Longrightarrow>
   paginate (q_page q) (q_limit q) (sortBy g (q_sort q) (q_order q) (filter (productFilter g q) (products st)))
     = Some (r_products pg)
   \<and> r_total pg = length (filter (productFilter g q) (products st))"
  by (auto simp: listProducts_def Let_def split: option.splits)

lemma listProductsByCategory_Inr:
  "listProductsByCategory g c q st = Inr pg \<Longrightarrow>
   paginate (q_page q) (q_limit q) (sortBy g (q_sort q) (q_order q)
       (filter (\<lambda>p. categoryMatch c p \<and> isAvailable p) (products st)))
     = Some (r_products pg)
   \<and> r_total pg = length (filter (\<lambda>p. categoryMatch c p \<and> isAvailable p) (products st))"
  by (auto simp: listProductsByCategory_def Let_def split: option.splits)

lemma page_of_permutation:
  assumes perm: "mset (srt xs) = mset xs"
    and pg: "paginate page limit (srt xs) = Some ys"
  shows "set ys \<subseteq> set xs \<and> (page = 1 \<and> (limit = 0 \<or> length xs \<le> limit) \<longrightarrow> set ys = set xs)"
proof -
  have s: "set (srt xs) = set xs" "length (srt xs) = length xs"
    using perm by (metis set_mset_mset, metis size_mset)
  from paginate_subset [OF pg] s(1) have "set ys \<subseteq> set xs" by simp
  moreover have "set ys = set xs" if "page = 1" "limit = 0 \<or> length xs \<le> limit"
    using paginate_all [of limit "srt xs" ys] pg that s by auto
  ultimately show ?thesis by blast
qed

text \<open>
  A catalogue with a product that holds \<open>c1\<close> only in the legacy field, one that holds it
  only in the array, one that is not available and one of another category; a database that
  answers in reverse order.
\<close>

definition reversing :: engine where
  "reversing = \<lparr>sortBy = (\<lambda>a b xs. rev xs), textSearch = (\<lambda>s p. False), regexI = (\<lambda>s t. False)\<rparr>"

definition legacy_dress :: product where
  "legacy_dress = dress ''p1'' (Some ''red-dress'')\<lparr>categories := []\<rparr>"

definition multi_dress :: product where
  "multi_dress = dress ''p2'' (Some ''red-dress-1'')\<lparr>categories := [''c2'', ''c1''], category := Some ''c2''\<rparr>"

definition hidden_dress :: product where
  "hidden_dress = dress ''p3'' (Some ''red-dress-2'')\<lparr>isAvailable := False\<rparr>"

definition other_dress :: product where
  "other_dress = dress ''p4'' (Some ''red-dress-3'')\<lparr>categories := [''c2''], category := Some ''c2''\<rparr>"

definition catalogue :: store where
  "catalogue = shop_of [legacy_dress, multi_dress, hidden_dress, other_dress]"

definition by_category :: "string \<Rightarrow> product_query" where
  "by_category c = \<lparr>q_page = 1, q_limit = 12, q_category = Some c, q_search = None,
     q_minPrice = None, q_maxPrice = None, q_size = None, q_color = None,
     q_sort = ''createdAt'', q_order = ''desc'', q_featured = None\<rparr>"

text \<open>
  C8. With a database whose sort permutes its input, a listing filtered by the category
  \<open>c\<close> alone, and the listing of the category route, match exactly the available products
  whose \<open>category\<close> is \<open>c\<close> or whose \<open>categories\<close> contain \<open>c\<close>: the total counts them, the
  answered page is the requested slice of them in the order of the database, and the
  first page is all of them when the limit does not cut it.
\<close>

theorem category_filter_matches_either_field:
  assumes perm: "\<And>a b xs. mset (sortBy g a b xs) = mset xs"
  shows
  "(category_only c q \<and> listProducts g r q st = (Inr pg, st') \<longrightarrow>
      paginate (q_page q) (q_limit q) (sortBy g (q_sort q) (q_order q) (category_products c (products st)))
        = Some (r_products pg)
      \<and> r_total pg = length (category_products c (products st))
      \<and> set (r_products pg) \<subseteq> set (category_products c (products st))
      \<and> (q_page q = 1 \<and> (q_limit q = 0 \<or> length (category_products c (products st)) \<le> q_limit q)
          \<longrightarrow> set (r_products pg) = set (category_products c (products st))))
   \<and> (listProductsByCategory g c q2 st = Inr pg2 \<longrightarrow>
      paginate (q_page q2) (q_limit q2) (sortBy g (q_sort q2) (q_order q2) (category_products c (products st)))
        = Some (r_products pg2)
      \<and> r_total pg2 = length (category_products c (products st))
      \<and> set (r_products pg2) \<subseteq> set (category_products c (products st))
      \<and> (q_page q2 = 1 \<and> (q_limit q2 = 0 \<or> length (category_products c (products st)) \<le> q_limit q2)
          \<longrightarrow> set (r_products pg2) = set (category_products c (products st))))
   \<and> set (category_products c (products st))
       = {p \<in> set (products st). isAvailable p \<and> (category p = Some c \<or> c \<in> set (categories p))}"
proof (intro conjI impI)
  assume a: "category_only c q \<and> listProducts g r q st = (Inr pg, st')"
  then have pg: "paginate (q_page q) (q_limit q)
      (sortBy g (q_sort q) (q_order q) (category_products c (products st))) = Some (r_products pg)"
    and tot: "r_total pg = length (category_products c (products st))"
    using listProducts_Inr [of g r q st pg st'] found_category_only [of c q g "products st"]
    by simp_all
  show "paginate (q_page q) (q_limit q)
      (sortBy g (q_sort q) (q_order q) (category_products c (products st))) = Some (r_products pg)"
    by (rule pg)
  show "r_total pg = length (category_products c (products st))" by (rule tot)
  note p = page_of_permutation [where srt = "sortBy g (q_sort q) (q_order q)", OF perm pg]
  show "set (r_products pg) \<subseteq> set (category_products c (products st))"
    using p by blast
  show "set (r_products pg) = set (category_products c (products st))"
    if "q_page q = 1 \<and> (q_limit q = 0 \<or> length (category_products c (products st)) \<le> q_limit q)"
    using p that by blast
next
  assume a: "listProductsByCategory g c q2 st = Inr pg2"
  then have pg: "paginate (q_page q2) (q_limit q2)
      (sortBy g (q_sort q2) (q_order q2) (category_products c (products st))) = Some (r_products pg2)"
    and tot: "r_total pg2 = length (category_products c (products st))"
    using listProductsByCategory_Inr [of g c q2 st pg2] found_by_category [of c "products st"]
    by simp_all
  show "paginate (q_page q2) (q_limit q2)
      (sortBy g (q_sort q2) (q_order q2) (category_products c (products st))) = Some (r_products pg2)"
    by (rule pg)
  show "r_total pg2 = length (category_products c (products st))" by (rule tot)
  note p = page_of_permutation [where srt = "sortBy g (q_sort q2) (q_order q2)", OF perm pg]
  show "set (r_products pg2) \<subseteq> set (category_products c (products st))"
    using p by blast
  show "set (r_products pg2) = set (category_products c (products st))"
    if "q_page q2 = 1 \<and> (q_limit q2 = 0 \<or> length (category_products c (products st)) \<le> q_limit q2)"
    using p that by blast
next
  show "set (category_products c (products st))
       = {p \<in> set (products st). isAvailable p \<and> (category p = Some c \<or> c \<in> set (categories p))}"
    by (auto simp: category_products_def)
qed

lemma catalogue_list:
  "listProducts reversing None (by_category ''c1'') catalogue
     = (Inr \<lparr>r_products = [multi_dress, legacy_dress], r_totalPages = Some 1, r_currentPage = 1,
             r_total = 2\<rparr>, catalogue)"
  by code_simp

lemma catalogue_by_category:
  "listProductsByCategory reversing ''c1'' (by_category []) catalogue
     = Inr \<lparr>r_products = [multi_dress, legacy_dress], r_totalPages = Some 1, r_currentPage = 1,
             r_total = 2\<rparr>"
  by code_simp

lemma catalogue_wanted: "category_products ''c1'' (products catalogue) = [legacy_dress, multi_dress]"
  by code_simp

theorem category_filter_matches_either_field_witness:
  "category_only ''c1'' (by_category ''c1'')
   \<and> listProducts reversing None (by_category ''c1'') catalogue
     = (Inr \<lparr>r_products = [multi_dress, legacy_dress], r_totalPages = Some 1, r_currentPage = 1,
             r_total = 2\<rparr>, catalogue)
   \<and> listProductsByCategory reversing ''c1'' (by_category []) catalogue
     = Inr \<lparr>r_products = [multi_dress, legacy_dress], r_totalPages = Some 1, r_currentPage = 1,
             r_total = 2\<rparr>
   \<and> set [multi_dress, legacy_dress] = set (category_products ''c1'' (products catalogue))
   \<and> category legacy_dress = Some ''c1'' \<and> categories legacy_dress = []
   \<and> category multi_dress = Some ''c2'' \<and> categories multi_dress = [''c2'', ''c1'']"
proof -
  have perm: "\<And>a b xs. mset (sortBy reversing a b xs) = mset xs"
    by (simp add: reversing_def)
  have only: "category_only ''c1'' (by_category ''c1'')"
    by (simp add: category_only_def by_category_def)
  have q: "q_page (by_category ''c1'') = 1" "q_limit (by_category ''c1'') = 12"
    "length (category_products ''c1'' (products catalogue)) \<le> 12"
    by (simp_all add: by_category_def catalogue_wanted)
  note t = category_filter_matches_either_field [OF perm, where c = "''c1''"
      and q = "by_category ''c1''" and r = None and st = catalogue
      and pg = "\<lparr>r_products = [multi_dress, legacy_dress], r_totalPages = Some 1,
                 r_currentPage = 1, r_total = 2\<rparr>"
      and st' = catalogue]
  from t only catalogue_list q
  have "set [multi_dress, legacy_dress] = set (category_products ''c1'' (products catalogue))"
    by simp
  moreover have "category legacy_dress = Some ''c1''" "categories legacy_dress = []"
    "category multi_dress = Some ''c2''" "categories multi_dress = [''c2'', ''c1'']"
    by (simp_all add: legacy_dress_def multi_dress_def dress_def)
  ultimately show ?thesis
    using only catalogue_list catalogue_by_category by simp
qed

section \<open>Verification: creating an order\<close>

text \<open>The line of an order for a requested item, as the specification prices it.\<close>

definition priced_line :: "product list \<Rightarrow> req_item \<Rightarrow> order_item \<Rightarrow> bool" where
  "priced_line ps item line =
     (case findProduct ps (rq_product item) of
        None \<Rightarrow> False
      | Some p \<Rightarrow>
          isAvailable p
          \<and> line = \<lparr>item_product = rq_product item, item_quantity = rq_quantity item,
                     item_rentalDuration = Num 1, item_price = price p,
                     item_totalPrice = num_mul (num_mul (price p) (rq_quantity item)) (Num 1)\<rparr>)"

text \<open>
  The order as the specification prices it, every product and sum a product and a sum of
  Numbers; the subtotal adds the line totals to 0 in the order of the items.
\<close>

definition priced_order :: "product list \<Rightarrow> req_item list \<Rightarrow> order \<Rightarrow> bool" where
  "priced_order ps its d =
     (list_all2 (priced_line ps) its (items d)
      \<and> subtotal d = foldl num_add (Num 0) (map item_totalPrice (items d))
      \<and> shippingCost d = (if num_gt (subtotal d) (Num 100) then Num 0 else Num 10)
      \<and> tax d = num_mul (subtotal d) (double (8 / 100))
      \<and> totalAmount d = num_add (num_add (subtotal d) (shippingCost d)) (tax d))"

text \<open>
  A request neither the handler nor the save turns down: no field violation, dates that
  keep the three rules, items with a finite quantity of at least one over existing
  available products whose price is finite and not negative, a complete address, a payment
  method of the enumeration, and an order number no other order holds.
\<close>

definition accepted_item :: "product list \<Rightarrow> req_item \<Rightarrow> bool" where
  "accepted_item ps item =
     (rq_product item \<noteq> []
      \<and> (case rq_quantity item of Num k \<Rightarrow> 1 \<le> k | _ \<Rightarrow> False)
      \<and> (case findProduct ps (rq_product item) of
            None \<Rightarrow> False
          | Some p \<Rightarrow> isAvailable p \<and> (case price p of Num a \<Rightarrow> 0 \<le> a | _ \<Rightarrow> False)))"

definition accepted_request :: "env \<Rightarrow> order_body \<Rightarrow> store \<Rightarrow> bool" where
  "accepted_request e body st =
     (ob_errors body = []
      \<and> startOfToday e \<le> ob_rentalStartDate body
      \<and> ob_rentalStartDate body < ob_rentalEndDate body
      \<and> startOfToday e \<le> ob_needDate body
      \<and> list_all (accepted_item (products st)) (ob_items body)
      \<and> validate_address (ob_shippingAddress body)
      \<and> ob_paymentMethod body \<in> set [''Credit Card'', ''Debit Card'', ''PayPal'', ''Cash on Delivery'']
      \<and> \<not> (\<exists>q \<in> set (orders st). oid q \<noteq> newId e \<and> orderNumber q = Some (generateOrderNumber e)))"

lemma findOrder_upsert: "findOrder (upsertOrder d ds) (oid d) = Some d"
proof (cases "\<exists>q \<in> set ds. oid q = oid d")
  case True
  then have "find (\<lambda>x. oid x = oid d) (map (\<lambda>q. if oid q = oid d then d else q) ds) = Some d"
    by (induction ds) auto
  with True show ?thesis by (simp add: findOrder_def upsertOrder_def)
next
  case False
  then have "find (\<lambda>x. oid x = oid d) (ds @ [d]) = Some d"
    by (induction ds) auto
  with False show ?thesis by (simp add: findOrder_def upsertOrder_def)
qed

lemma orderItemsLoop_Inr:
  "orderItemsLoop ps its acc sub = Inr (res, tot) \<Longrightarrow>
   \<exists>new. res = acc @ new \<and> tot = foldl num_add sub (map item_totalPrice new)
       \<and> list_all2 (priced_line ps) its new"
proof (induction its arbitrary: acc sub)
  case Nil
  then show ?case by simp
next
  case (Cons item rest)
  let ?line = "\<lambda>p. \<lparr>item_product = pid p, item_quantity = rq_quantity item,
                   item_rentalDuration = Num 1, item_price = price p,
                   item_totalPrice = num_mul (num_mul (price p) (rq_quantity item)) (Num 1)\<rparr>"
  from Cons.prems obtain p where
    p: "findProduct ps (rq_product item) = Some p" "isAvailable p"
    and rec: "orderItemsLoop ps rest (acc @ [?line p])
         (num_add sub (num_mul (num_mul (price p) (rq_quantity item)) (Num 1))) = Inr (res, tot)"
    by (auto simp: Let_def split: option.splits if_splits)
  from Cons.IH [OF rec] obtain new where
    new: "res = (acc @ [?line p]) @ new"
      "tot = foldl num_add (num_add sub (num_mul (num_mul (price p) (rq_quantity item)) (Num 1)))
               (map item_totalPrice new)"
      "list_all2 (priced_line ps) rest new"
    by blast
  have "pid p = rq_product item"
    using p(1) by (auto simp: findProduct_def find_Some_iff)
  then have "priced_line ps item (?line p)"
    using p by (simp add: priced_line_def)
  with new show ?case
    by (intro exI [of _ "?line p # new"]) simp
qed

lemma orderItemsLoop_total:
  "list_all2 (priced_line ps) its new \<Longrightarrow>
   orderItemsLoop ps its acc sub = Inr (acc @ new, foldl num_add sub (map item_totalPrice new))"
proof (induction its new arbitrary: acc sub rule: list_all2_induct)
  case Nil
  then show ?case by simp
next
  case (Cons item rest line new)
  from Cons.hyps(1) obtain p where
    p: "findProduct ps (rq_product item) = Some p" "isAvailable p"
    "line = \<lparr>item_product = rq_product item, item_quantity = rq_quantity item,
                     item_rentalDuration = Num 1, item_price = price p,
                     item_totalPrice = num_mul (num_mul (price p) (rq_quantity item)) (Num 1)\<rparr>"
    by (auto simp: priced_line_def split: option.splits)
  have "pid p = rq_product item"
    using p(1) by (auto simp: findProduct_def find_Some_iff)
  with p Cons.IH [of "acc @ [line]" "num_add sub (item_totalPrice line)"] show ?case
    by (simp add: Let_def)
qed

lemma saveOrder_Inr:
  "saveOrder e isNew d st = Inr (d', st') \<Longrightarrow>
   validate_order d
   \<and> d' = (if \<not> isNew then d else d\<lparr>orderNumber := Some (generateOrderNumber e)\<rparr>)
   \<and> \<not> number_conflict (orders st) d'
   \<and> st' = st\<lparr>orders := upsertOrder d' (orders st)\<rparr>"
  by (auto simp: saveOrder_def Let_def split: if_splits)

lemma saveOrder_stored:
  assumes "saveOrder e isNew d st = Inr (d', st')"
  shows "findOrder (orders st') (oid d') = Some d'"
proof -
  from saveOrder_Inr [OF assms] have "orders st' = upsertOrder d' (orders st)" by simp
  then show ?thesis by (simp only: findOrder_upsert)
qed

lemma newOrder_priced:
  "list_all2 (priced_line ps) its new \<Longrightarrow>
   priced_order ps its (newOrder e u g body new (foldl num_add (Num 0) (map item_totalPrice new)))"
  by (simp add: priced_order_def newOrder_def Let_def)

lemma priced_order_number:
  "priced_order ps its d \<Longrightarrow> priced_order ps its (d\<lparr>orderNumber := n\<rparr>)"
  by (simp add: priced_order_def)

lemma createOrder_Inr:
  assumes "createOrder e r body st = (Inr d, st')"
  shows "priced_order (products st) (ob_items body) d \<and> user d = Some (uid r) \<and> \<not> isGuestOrder d
         \<and> findOrder (orders st') (oid d) = Some d"
proof -
  from assms obtain its sub where
    loop: "orderItemsLoop (products st) (ob_items body) [] (Num 0) = Inr (its, sub)" and
    sv: "saveOrder e True (newOrder e (Some (uid r)) False body its sub) st = Inr (d, st')"
    by (auto simp: createOrder_def split: if_splits option.splits sum.splits)
  from orderItemsLoop_Inr [OF loop] have
    its: "sub = foldl num_add (Num 0) (map item_totalPrice its)"
      "list_all2 (priced_line (products st)) (ob_items body) its"
    by auto
  from saveOrder_Inr [OF sv]
  have d: "d = (newOrder e (Some (uid r)) False body its sub)\<lparr>orderNumber := Some (generateOrderNumber e)\<rparr>"
    by simp
  have "priced_order (products st) (ob_items body) d"
    unfolding d its(1) by (intro priced_order_number newOrder_priced its(2))
  moreover have "user d = Some (uid r)" "\<not> isGuestOrder d"
    by (simp_all add: d newOrder_def Let_def)
  ultimately show ?thesis
    using saveOrder_stored [OF sv] by simp
qed

lemma createGuestOrder_Inr:
  assumes "createGuestOrder e body st = (Inr d, st')"
  shows "priced_order (products st) (ob_items body) d \<and> user d = None \<and> isGuestOrder d
         \<and> findOrder (orders st') (oid d) = Some d"
proof -
  from assms obtain its sub where
    loop: "orderItemsLoop (products st) (ob_items body) [] (Num 0) = Inr (its, sub)" and
    sv: "saveOrder e True (newOrder e None True body its sub) st = Inr (d, st')"
    by (auto simp: createGuestOrder_def split: if_splits option.splits sum.splits)
  from orderItemsLoop_Inr [OF loop] have
    its: "sub = foldl num_add (Num 0) (map item_totalPrice its)"
      "list_all2 (priced_line (products st)) (ob_items body) its"
    by auto
  from saveOrder_Inr [OF sv]
  have d: "d = (newOrder e None True body its sub)\<lparr>orderNumber := Some (generateOrderNumber e)\<rparr>"
    by simp
  have "priced_order (products st) (ob_items body) d"
    unfolding d its(1) by (intro priced_order_number newOrder_priced its(2))
  moreover have "user d = None" "isGuestOrder d"
    by (simp_all add: d newOrder_def Let_def)
  ultimately show ?thesis
    using saveOrder_stored [OF sv] by simp
qed

text \<open>
  The lines of accepted items pass the validators of the schema, and their totals are not
  negative: a finite one or \<open>Infinity\<close>, never \<open>NaN\<close>.
\<close>

lemma lines_exist:
  "list_all (accepted_item ps) its \<Longrightarrow>
   \<exists>new. list_all2 (priced_line ps) its new \<and> list_all validate_item new
       \<and> list_all nonneg (map item_totalPrice new)"
proof (induction its)
  case Nil
  then show ?case by simp
next
  case (Cons item rest)
  then obtain new p a k where
    new: "list_all2 (priced_line ps) rest new" "list_all validate_item new"
      "list_all nonneg (map item_totalPrice new)"
    and p: "findProduct ps (rq_product item) = Some p" "isAvailable p"
      "rq_product item \<noteq> []"
    and n: "rq_quantity item = Num k" "1 \<le> k" "price p = Num a" "0 \<le> a"
    by (auto simp: accepted_item_def split: option.splits number.splits)
  let ?line = "\<lparr>item_product = rq_product item, item_quantity = rq_quantity item,
                     item_rentalDuration = Num 1, item_price = price p,
                     item_totalPrice = num_mul (num_mul (price p) (rq_quantity item)) (Num 1)\<rparr>"
  have "priced_line ps item ?line"
    using p by (auto simp: priced_line_def)
  moreover have t: "nonneg (item_totalPrice ?line)"
    using n nonneg_scale [OF nonneg_mul [of a k], of 1] by simp
  moreover have "validate_item ?line"
    using p n nonneg_not_NaN [OF t] by (auto simp: validate_item_def)
  ultimately show ?case
    using new by (intro exI [of _ "?line # new"]) simp
qed

lemma accepted_saves:
  assumes acc: "accepted_request e body st"
    and new: "list_all validate_item new" and sub: "nonneg sub"
  shows "\<exists>d st'. saveOrder e True (newOrder e u g body new sub) st = Inr (d, st')"
proof -
  let ?d = "newOrder e u g body new sub"
  let ?shipping = "if num_gt sub (Num 100) then Num 0 else Num 10"
  have s: "nonneg ?shipping"
    by (simp add: nonneg_def)
  have t: "nonneg (num_mul sub (double (8 / 100)))"
    unfolding eight_percent by (rule nonneg_scale [OF sub]) simp
  have "nonneg (num_add (num_add sub ?shipping) (num_mul sub (double (8 / 100))))"
    by (intro nonneg_add sub s t)
  with sub s t have "subtotal ?d \<noteq> NaN" "shippingCost ?d \<noteq> NaN" "tax ?d \<noteq> NaN"
    "totalAmount ?d \<noteq> NaN"
    by (auto simp: newOrder_def Let_def dest: nonneg_not_NaN)
  then have "validate_order ?d"
    using acc new by (simp add: accepted_request_def validate_order_def) (simp add: newOrder_def Let_def)
  moreover have "\<not> number_conflict (orders st) (?d\<lparr>orderNumber := Some (generateOrderNumber e)\<rparr>)"
    using acc by (simp add: accepted_request_def number_conflict_def newOrder_def Let_def)
  ultimately show ?thesis
    by (simp add: saveOrder_def Let_def)
qed

lemma accepted_dates:
  "accepted_request e body st \<Longrightarrow>
   checkDates e (ob_rentalStartDate body) (ob_rentalEndDate body) (ob_needDate body) = None"
  by (simp add: accepted_request_def checkDates_def Let_def)

lemma accepted_created:
  assumes acc: "accepted_request e body st"
  shows "(\<exists>d st'. createOrder e r body st = (Inr d, st'))
       \<and> (\<exists>d st'. createGuestOrder e body st = (Inr d, st'))"
proof -
  from acc have "list_all (accepted_item (products st)) (ob_items body)"
    by (simp add: accepted_request_def)
  from lines_exist [OF this] obtain new where
    new: "list_all2 (priced_line (products st)) (ob_items body) new"
      "list_all validate_item new" "list_all nonneg (map item_totalPrice new)"
    by blast
  let ?sub = "foldl num_add (Num 0) (map item_totalPrice new)"
  have loop: "orderItemsLoop (products st) (ob_items body) [] (Num 0) = Inr (new, ?sub)"
    using orderItemsLoop_total [OF new(1), of "[]" "Num 0"] by simp
  have sub: "nonneg ?sub"
    by (intro nonneg_foldl new(3)) (simp add: nonneg_def)
  have err: "ob_errors body = []"
    using acc by (simp add: accepted_request_def)
  from accepted_saves [OF acc new(2) sub] obtain d st' where
    "saveOrder e True (newOrder e (Some (uid r)) False body new ?sub) st = Inr (d, st')"
    by blast
  then have "createOrder e r body st = (Inr d, st')"
    using err accepted_dates [OF acc] loop by (simp add: createOrder_def)
  moreover from accepted_saves [OF acc new(2) sub] obtain d2 st2 where
    "saveOrder e True (newOrder e None True body new ?sub) st = Inr (d2, st2)"
    by blast
  then have "createGuestOrder e body st = (Inr d2, st2)"
    using err accepted_dates [OF acc] loop by (simp add: createGuestOrder_def)
  ultimately show ?thesis by blast
qed

text \<open>A request the handler takes step by step.\<close>

lemma createOrder_steps:
  assumes "ob_errors body = []"
    and "checkDates e (ob_rentalStartDate body) (ob_rentalEndDate body) (ob_needDate body) = None"
    and "orderItemsLoop (products st) (ob_items body) [] (Num 0) = Inr (its, sub)"
    and "saveOrder e True (newOrder e (Some (uid r)) False body its sub) st = Inr (d, st')"
  shows "createOrder e r body st = (Inr d, st')"
  using assms by (simp add: createOrder_def)

lemma createGuestOrder_steps:
  assumes "ob_errors body = []"
    and "checkDates e (ob_rentalStartDate body) (ob_rentalEndDate body) (ob_needDate body) = None"
    and "orderItemsLoop (products st) (ob_items body) [] (Num 0) = Inr (its, sub)"
    and "saveOrder e True (newOrder e None True body its sub) st = Inr (d, st')"
  shows "createGuestOrder e body st = (Inr d, st')"
  using assms by (simp add: createGuestOrder_def)

subsection \<open>An order of two items\<close>

definition home :: address where
  "home = \<lparr>addr_name = ''Asha'', addr_phone = ''5550100'', addr_street = ''1 Main St'',
     addr_city = ''Pune'', addr_state = ''MH'', addr_zipCode = ''411001'', addr_country = ''IN''\<rparr>"

definition customer :: requester where
  "customer = \<lparr>uid = ''u1'', role = ''user''\<rparr>"

definition rental_shop :: store where
  "rental_shop = shop_of [dress ''p1'' (Some ''red-dress''),
                          dress ''p2'' (Some ''red-dress-1'')\<lparr>price := Num 70\<rparr>]"

text \<open>
  Two items of one piece each, with a requested duration of five and of three days; the
  clock of \<open>shop_env\<close> stands at noon UTC of 3 November 2026.
\<close>

definition two_items :: order_body where
  "two_items = \<lparr>ob_errors = [],
     ob_items = [\<lparr>rq_product = ''p1'', rq_quantity = Num 1, rq_rentalDuration = Num 5\<rparr>,
                 \<lparr>rq_product = ''p2'', rq_quantity = Num 1, rq_rentalDuration = Num 3\<rparr>],
     ob_shippingAddress = home, ob_paymentMethod = ''PayPal'',
     ob_rentalStartDate = 1793750400000, ob_rentalEndDate = 1793836800000,
     ob_needDate = 1793750400000, ob_notes = None\<rparr>"

definition two_lines :: "order_item list" where
  "two_lines = [\<lparr>item_product = ''p1'', item_quantity = Num 1, item_rentalDuration = Num 1,
                  item_price = Num 40, item_totalPrice = Num 40\<rparr>,
                \<lparr>item_product = ''p2'', item_quantity = Num 1, item_rentalDuration = Num 1,
                  item_price = Num 70, item_totalPrice = Num 70\<rparr>]"

text \<open>
  The answered order. Its tax and its total are the doubles that the literals \<^verbatim>\<open>8.8\<close> and
  \<^verbatim>\<open>118.8\<close> denote, written out as fractions.
\<close>

definition placed :: "objectId option \<Rightarrow> bool \<Rightarrow> order" where
  "placed u g = \<lparr>oid = ''p1'', user = u, isGuestOrder = g, items = two_lines,
     shippingAddress = home, paymentMethod = ''PayPal'', paymentStatus = ''Pending'',
     orderStatus = ''Pending'', subtotal = Num 110, shippingCost = Num 0,
     tax = Num (2476979795053773 / 281474976710656),
     totalAmount = Num (8359806808306483 / 70368744177664),
     orderNumber = Some ''ORD261103007'',
     rentalStartDate = 1793750400000, rentalEndDate = 1793836800000,
     needDate = 1793750400000, customerNotes = None, adminNotes = None\<rparr>"

lemma literal_8_8: "double (88 / 10) = Num (2476979795053773 / 281474976710656)"
  by code_simp

lemma literal_118_8: "double (1188 / 10) = Num (8359806808306483 / 70368744177664)"
  by code_simp

lemma two_items_created:
  "createOrder shop_env customer two_items rental_shop
     = (Inr (placed (Some ''u1'') False), rental_shop\<lparr>orders := [placed (Some ''u1'') False]\<rparr>)"
  by (rule createOrder_steps [where its = two_lines and sub = "Num 110"]; code_simp)

lemma two_items_guest:
  "createGuestOrder shop_env two_items rental_shop
     = (Inr (placed None True), rental_shop\<lparr>orders := [placed None True]\<rparr>)"
  by (rule createGuestOrder_steps [where its = two_lines and sub = "Num 110"]; code_simp)

subsection \<open>Orders whose arithmetic rounds\<close>

text \<open>
  One piece of a product priced 70: the tax \<^verbatim>\<open>70 * 0.08\<close> is the double above the one
  that the literal \<^verbatim>\<open>5.6\<close> denotes (it prints as \<^verbatim>\<open>5.6000000000000005\<close>), and the total
  \<^verbatim>\<open>70 + 10 + tax\<close> rounds to the double of \<^verbatim>\<open>85.6\<close>.
\<close>

definition one_item :: order_body where
  "one_item = two_items\<lparr>ob_items := [\<lparr>rq_product = ''p2'', rq_quantity = Num 1,
                                          rq_rentalDuration = Num 1\<rparr>]\<rparr>"

definition one_placed :: order where
  "one_placed = placed (Some ''u1'') False
     \<lparr>items := [\<lparr>item_product = ''p2'', item_quantity = Num 1, item_rentalDuration = Num 1,
                  item_price = Num 70, item_totalPrice = Num 70\<rparr>],
      subtotal := Num 70, shippingCost := Num 10,
      tax := Num (6305039478318695 / 1125899906842624),
      totalAmount := Num (3011782250804019 / 35184372088832)\<rparr>"

lemma one_item_created:
  "createOrder shop_env customer one_item rental_shop
     = (Inr one_placed, rental_shop\<lparr>orders := [one_placed]\<rparr>)"
  by (rule createOrder_steps [where sub = "Num 70"
        and its = "[\<lparr>item_product = ''p2'', item_quantity = Num 1, item_rentalDuration = Num 1,
                  item_price = Num 70, item_totalPrice = Num 70\<rparr>]"]; code_simp)

lemma one_item_rounds:
  "tax one_placed = double (56000000000000005 / 10000000000000000)
   \<and> tax one_placed \<noteq> double (56 / 10)
   \<and> totalAmount one_placed = double (856 / 10)"
  by code_simp


text \<open>
  Three pieces priced \<^verbatim>\<open>22.1\<close> and one piece priced \<^verbatim>\<open>33.7\<close>: the decimal prices add
  up to 100, the subtotal of the handler is the double above 100, and the order ships
  free.
\<close>

definition decimal_shop :: store where
  "decimal_shop = shop_of [dress ''p1'' (Some ''red-dress'')\<lparr>price := double (221 / 10)\<rparr>,
                           dress ''p2'' (Some ''red-dress-1'')\<lparr>price := double (337 / 10)\<rparr>]"

definition decimal_items :: order_body where
  "decimal_items = two_items\<lparr>ob_items :=
      [\<lparr>rq_product = ''p1'', rq_quantity = Num 3, rq_rentalDuration = Num 1\<rparr>,
       \<lparr>rq_product = ''p2'', rq_quantity = Num 1, rq_rentalDuration = Num 1\<rparr>]\<rparr>"

definition decimal_placed :: order where
  "decimal_placed = placed None True
     \<lparr>items := [\<lparr>item_product = ''p1'', item_quantity = Num 3, item_rentalDuration = Num 1,
                  item_price = double (221 / 10),
                  item_totalPrice = Num (1166361934744781 / 17592186044416)\<rparr>,
                \<lparr>item_product = ''p2'', item_quantity = Num 1, item_rentalDuration = Num 1,
                  item_price = double (337 / 10), item_totalPrice = double (337 / 10)\<rparr>],
      subtotal := Num (7036874417766401 / 70368744177664), shippingCost := Num 0,
      tax := Num (4503599627370497 / 562949953421312),
      totalAmount := Num (7599824371187713 / 70368744177664)\<rparr>"

lemma decimal_items_created:
  "createGuestOrder shop_env decimal_items decimal_shop
     = (Inr decimal_placed, decimal_shop\<lparr>orders := [decimal_placed]\<rparr>)"
  by (rule createGuestOrder_steps [where sub = "subtotal decimal_placed"
        and its = "items decimal_placed"]; code_simp)

lemma decimal_items_round:
  "subtotal decimal_placed = double (10000000000000001 / 100000000000000)
   \<and> num_gt (subtotal decimal_placed) (Num 100)
   \<and> double (221 / 10 * 3 + 337 / 10) = Num 100
   \<and> shippingCost decimal_placed = Num 0"
  by code_simp

text \<open>
  C2. An order that either creation route answers is priced as the specification says,
  with the products, the sums and the comparison of JavaScript Numbers: every line carries
  the product's price and the requested quantity, lasts one day whatever duration the
  client sent, and totals price times quantity times 1; the subtotal is the sum of the
  line totals, the shipping cost is 0 above 100 and 10 otherwise, the tax is the subtotal
  times 0.08, and the total is their sum; the order is stored. Both routes do create the
  order of every accepted request. Products priced 40 and 70, one piece each, give the
  subtotal 110, the shipping cost 0, the tax 8.8 and the total 118.8.
\<close>

theorem order_pricing:
  "(createOrder e r body st = (Inr d, st') \<longrightarrow>
      priced_order (products st) (ob_items body) d \<and> findOrder (orders st') (oid d) = Some d)
   \<and> (createGuestOrder e body st = (Inr d2, st2) \<longrightarrow>
      priced_order (products st) (ob_items body) d2 \<and> findOrder (orders st2) (oid d2) = Some d2)
   \<and> (accepted_request e body st \<longrightarrow>
      (\<exists>d st'. createOrder e r body st = (Inr d, st'))
      \<and> (\<exists>d st'. createGuestOrder e body st = (Inr d, st')))
   \<and> createOrder shop_env customer two_items rental_shop
       = (Inr (placed (Some ''u1'') False), rental_shop\<lparr>orders := [placed (Some ''u1'') False]\<rparr>)
   \<and> createGuestOrder shop_env two_items rental_shop
       = (Inr (placed None True), rental_shop\<lparr>orders := [placed None True]\<rparr>)
   \<and> map price (products rental_shop) = [Num 40, Num 70]
   \<and> subtotal (placed u g) = Num 110 \<and> shippingCost (placed u g) = Num 0
   \<and> tax (placed u g) = double (88 / 10) \<and> totalAmount (placed u g) = double (1188 / 10)"
proof -
  have "map price (products rental_shop) = [Num 40, Num 70]"
    by (simp add: rental_shop_def shop_of_def dress_def)
  moreover have "subtotal (placed u g) = Num 110 \<and> shippingCost (placed u g) = Num 0
      \<and> tax (placed u g) = double (88 / 10) \<and> totalAmount (placed u g) = double (1188 / 10)"
    unfolding literal_8_8 literal_118_8 by (simp add: placed_def)
  ultimately show ?thesis
    using createOrder_Inr [of e r body st d st'] createGuestOrder_Inr [of e body st d2 st2]
      accepted_created [of e body st r] two_items_created two_items_guest
    by blast
qed

lemma two_items_accepted: "accepted_request shop_env two_items rental_shop"
  by code_simp

theorem order_pricing_witness:
  "accepted_request shop_env two_items rental_shop
   \<and> createOrder shop_env customer two_items rental_shop
       = (Inr (placed (Some ''u1'') False), rental_shop\<lparr>orders := [placed (Some ''u1'') False]\<rparr>)
   \<and> priced_order (products rental_shop) (ob_items two_items) (placed (Some ''u1'') False)
   \<and> createGuestOrder shop_env two_items rental_shop
       = (Inr (placed None True), rental_shop\<lparr>orders := [placed None True]\<rparr>)
   \<and> priced_order (products rental_shop) (ob_items two_items) (placed None True)
   \<and> map item_rentalDuration (items (placed None True)) = [Num 1, Num 1]
   \<and> map rq_rentalDuration (ob_items two_items) = [Num 5, Num 3]"
proof -
  note t = order_pricing [where e = shop_env and r = customer and body = two_items
      and st = rental_shop and d = "placed (Some ''u1'') False"
      and st' = "rental_shop\<lparr>orders := [placed (Some ''u1'') False]\<rparr>"
      and ?d2.0 = "placed None True" and ?st2.0 = "rental_shop\<lparr>orders := [placed None True]\<rparr>"]
  have "priced_order (products rental_shop) (ob_items two_items) (placed (Some ''u1'') False)"
    "priced_order (products rental_shop) (ob_items two_items) (placed None True)"
    using t two_items_created two_items_guest by blast+
  moreover have "map item_rentalDuration (items (placed None True)) = [Num 1, Num 1]"
    "map rq_rentalDuration (ob_items two_items) = [Num 5, Num 3]"
    by (simp_all add: placed_def two_lines_def two_items_def)
  ultimately show ?thesis
    using two_items_accepted two_items_created two_items_guest by simp
qed

section \<open>Verification: the date rules\<close>

lemma before_multiple:
  fixes a n D :: int
  assumes D: "0 < D"
  shows "(a < n - n mod D) = (a div D < n div D)"
proof -
  have eq: "n - n mod D = D * (n div D)"
    by (simp add: minus_mod_eq_mult_div)
  have a: "D * (a div D) + a mod D = a" by simp
  have lo: "0 \<le> a mod D" and hi: "a mod D < D"
    using D by simp_all
  show ?thesis
  proof
    assume lt: "a < n - n mod D"
    show "a div D < n div D"
    proof (rule ccontr)
      assume "\<not> a div D < n div D"
      then have "n div D \<le> a div D" by simp
      then have "D * (n div D) \<le> D * (a div D)"
        using D by (simp add: mult_left_mono)
      with a lo lt eq show False by linarith
    qed
  next
    assume "a div D < n div D"
    then have "a div D + 1 \<le> n div D" by simp
    then have "D * (a div D + 1) \<le> D * (n div D)"
      using D by (simp add: mult_left_mono)
    then have "D * (a div D) + D \<le> D * (n div D)"
      by (simp add: distrib_left)
    with a hi eq show "a < n - n mod D" by linarith
  qed
qed

lemma startOfToday_day: "(t < startOfToday e) = (localDay e t < localDay e (now e))"
proof -
  have "(t + tzOffset e < (now e + tzOffset e) - (now e + tzOffset e) mod msPerDay)
      = ((t + tzOffset e) div msPerDay < (now e + tzOffset e) div msPerDay)"
    by (rule before_multiple) (simp add: msPerDay_def)
  then show ?thesis
    by (simp add: startOfToday_def localDay_def algebra_simps)
qed

lemma checkDates_rejects:
  "startDate < startOfToday e \<or> endDate \<le> startDate \<or> needDateObj < startOfToday e \<Longrightarrow>
   \<exists>msg. checkDates e startDate endDate needDateObj = Some (BadRequest msg)"
  by (auto simp: checkDates_def Let_def)

lemma bad_dates_createOrder:
  assumes "ob_rentalStartDate body < startOfToday e \<or> ob_rentalEndDate body \<le> ob_rentalStartDate body
      \<or> ob_needDate body < startOfToday e"
  shows "\<exists>f. createOrder e r body st = (Inl f, st) \<and> (ob_errors body = [] \<longrightarrow> (\<exists>msg. f = BadRequest msg))"
proof -
  from checkDates_rejects [OF assms] obtain msg where
    "checkDates e (ob_rentalStartDate body) (ob_rentalEndDate body) (ob_needDate body)
       = Some (BadRequest msg)"
    by blast
  then show ?thesis by (simp add: createOrder_def)
qed

lemma bad_dates_createGuestOrder:
  assumes "ob_rentalStartDate body < startOfToday e \<or> ob_rentalEndDate body \<le> ob_rentalStartDate body
      \<or> ob_needDate body < startOfToday e"
  shows "\<exists>f. createGuestOrder e body st = (Inl f, st) \<and> (ob_errors body = [] \<longrightarrow> (\<exists>msg. f = BadRequest msg))"
proof -
  from checkDates_rejects [OF assms] obtain msg where
    "checkDates e (ob_rentalStartDate body) (ob_rentalEndDate body) (ob_needDate body)
       = Some (BadRequest msg)"
    by blast
  then show ?thesis by (simp add: createGuestOrder_def)
qed

text \<open>
  C4. When the rental start lies before the start of today, when the rental end is not
  after the rental start, or when the need date lies before the start of today, both
  creation routes answer an error and leave the database as it was, so no order is
  persisted; for a body without field violations the error is a 400 with the message of
  a date rule. An instant lies before the start of today exactly when its local calendar
  day is an earlier day than that of the clock.
\<close>

theorem bad_dates_rejected:
  "(ob_rentalStartDate body < startOfToday e \<or> ob_rentalEndDate body \<le> ob_rentalStartDate body
      \<or> ob_needDate body < startOfToday e \<longrightarrow>
      (\<exists>f. createOrder e r body st = (Inl f, st) \<and> (ob_errors body = [] \<longrightarrow> (\<exists>msg. f = BadRequest msg)))
      \<and> (\<exists>f. createGuestOrder e body st = (Inl f, st)
            \<and> (ob_errors body = [] \<longrightarrow> (\<exists>msg. f = BadRequest msg))))
   \<and> (t < startOfToday e) = (localDay e t < localDay e (now e))"
  using bad_dates_createOrder [of body e r st] bad_dates_createGuestOrder [of body e st]
    startOfToday_day [of t e]
  by blast

lemma same_day_return:
  "createOrder shop_env customer (two_items\<lparr>ob_rentalEndDate := 1793750400000\<rparr>) rental_shop
     = (Inl (BadRequest ''Rental end date must be after start date''), rental_shop)"
  by code_simp

lemma yesterday_start:
  "createGuestOrder shop_env (two_items\<lparr>ob_rentalStartDate := 1793663999999\<rparr>) rental_shop
     = (Inl (BadRequest ''Rental start date cannot be in the past''), rental_shop)"
  by code_simp

lemma yesterday_need:
  "createOrder shop_env customer (two_items\<lparr>ob_needDate := 1793663999999\<rparr>) rental_shop
     = (Inl (BadRequest ''Need date cannot be in the past''), rental_shop)"
  by code_simp

theorem bad_dates_rejected_witness:
  "ob_rentalEndDate (two_items\<lparr>ob_rentalEndDate := 1793750400000\<rparr>)
     \<le> ob_rentalStartDate (two_items\<lparr>ob_rentalEndDate := 1793750400000\<rparr>)
   \<and> (\<exists>f. createOrder shop_env customer (two_items\<lparr>ob_rentalEndDate := 1793750400000\<rparr>) rental_shop
          = (Inl f, rental_shop))
   \<and> createOrder shop_env customer (two_items\<lparr>ob_rentalEndDate := 1793750400000\<rparr>) rental_shop
     = (Inl (BadRequest ''Rental end date must be after start date''), rental_shop)
   \<and> createGuestOrder shop_env (two_items\<lparr>ob_rentalStartDate := 1793663999999\<rparr>) rental_shop
     = (Inl (BadRequest ''Rental start date cannot be in the past''), rental_shop)
   \<and> createOrder shop_env customer (two_items\<lparr>ob_needDate := 1793663999999\<rparr>) rental_shop
     = (Inl (BadRequest ''Need date cannot be in the past''), rental_shop)
   \<and> startOfToday shop_env = 1793664000000
   \<and> localDay shop_env 1793663999999 < localDay shop_env (now shop_env)"
proof -
  have le: "ob_rentalEndDate (two_items\<lparr>ob_rentalEndDate := 1793750400000\<rparr>)
     \<le> ob_rentalStartDate (two_items\<lparr>ob_rentalEndDate := 1793750400000\<rparr>)"
    by (simp add: two_items_def)
  note t = bad_dates_rejected [where body = "two_items\<lparr>ob_rentalEndDate := 1793750400000\<rparr>"
      and e = shop_env and r = customer and st = rental_shop and t = 1793663999999]
  have today: "startOfToday shop_env = 1793664000000"
    by (simp add: startOfToday_def shop_env_def msPerDay_def)
  from t le have a: "\<exists>f. createOrder shop_env customer (two_items\<lparr>ob_rentalEndDate := 1793750400000\<rparr>) rental_shop
          = (Inl f, rental_shop)"
    by blast
  from t today have b: "localDay shop_env 1793663999999 < localDay shop_env (now shop_env)"
    by simp
  from le a b today same_day_return yesterday_start yesterday_need show ?thesis
    by blast
qed

section \<open>Verification: cancelling and fetching an order\<close>

lemma default_note: "trim ''Order cancelled by admin'' = ''Order cancelled by admin''"
  by code_simp

lemma findOrder_oid: "findOrder ds i = Some d \<Longrightarrow> oid d = i"
  by (auto simp: findOrder_def find_Some_iff)

text \<open>The order the cancel route hands to the save.\<close>

definition cancelled_by :: "requester \<Rightarrow> string option \<Rightarrow> order \<Rightarrow> order" where
  "cancelled_by r note d =
     (if role r = ''admin''
      then d\<lparr>orderStatus := ''Cancelled'',
             adminNotes := Some (trim (if truthy note then the note else ''Order cancelled by admin''))\<rparr>
      else d\<lparr>orderStatus := ''Cancelled''\<rparr>)"

lemma cancelOrder_Inr:
  assumes f: "findOrder (orders st) i = Some d"
    and c: "cancelOrder e r i note st = (Inr d', st')"
  shows "(role r = ''admin'' \<or> user d = Some (uid r))
       \<and> orderStatus d \<in> {''Pending'', ''Confirmed''}
       \<and> d' = cancelled_by r note d
       \<and> findOrder (orders st') i = Some d'"
proof -
  from c f have own: "role r = ''admin'' \<or> user d = Some (uid r)"
    and stat: "orderStatus d \<in> {''Pending'', ''Confirmed''}"
    and sv: "saveOrder e False (cancelled_by r note d) st = Inr (d', st')"
    by (auto simp: cancelOrder_def cancelled_by_def Let_def split: if_splits sum.splits)
  from saveOrder_Inr [OF sv] have d': "d' = cancelled_by r note d" by simp
  then have "oid d' = i"
    using findOrder_oid [OF f] by (simp add: cancelled_by_def)
  with saveOrder_stored [OF sv] have "findOrder (orders st') i = Some d'" by simp
  with own stat d' show ?thesis by simp
qed

lemma cancelOrder_refused:
  assumes f: "findOrder (orders st) i = Some d"
    and no: "orderStatus d \<notin> {''Pending'', ''Confirmed''} \<or> \<not> (role r = ''admin'' \<or> user d = Some (uid r))"
  shows "\<exists>f. cancelOrder e r i note st = (Inl f, st)"
  using f no by (auto simp: cancelOrder_def Let_def split: sum.splits)

lemma cancelOrder_accepts:
  assumes f: "findOrder (orders st) i = Some d"
    and own: "role r = ''admin'' \<or> user d = Some (uid r)"
    and stat: "orderStatus d \<in> {''Pending'', ''Confirmed''}"
    and v: "validate_order d" and n: "\<not> number_conflict (orders st) d"
  shows "cancelOrder e r i note st
     = (Inr (cancelled_by r note d), st\<lparr>orders := upsertOrder (cancelled_by r note d) (orders st)\<rparr>)"
proof -
  let ?d = "cancelled_by r note d"
  have "validate_order ?d"
    using v by (simp add: validate_order_def cancelled_by_def)
  moreover have "\<not> number_conflict (orders st) ?d"
    using n by (simp add: number_conflict_def cancelled_by_def)
  ultimately have "saveOrder e False ?d st = Inr (?d, st\<lparr>orders := upsertOrder ?d (orders st)\<rparr>)"
    by (simp add: saveOrder_def Let_def)
  with f own stat show ?thesis
    by (auto simp: cancelOrder_def cancelled_by_def Let_def)
qed

lemma cancelled_by_fields:
  "orderStatus (cancelled_by r note d) = ''Cancelled''"
  "role r = ''admin'' \<Longrightarrow> \<not> truthy note \<Longrightarrow>
     adminNotes (cancelled_by r note d) = Some ''Order cancelled by admin''"
  "role r \<noteq> ''admin'' \<Longrightarrow> adminNotes (cancelled_by r note d) = adminNotes d"
  by (simp_all add: cancelled_by_def default_note)

subsection \<open>An order book\<close>

definition shop_admin :: requester where
  "shop_admin = \<lparr>uid = ''a1'', role = ''admin''\<rparr>"

definition stranger :: requester where
  "stranger = \<lparr>uid = ''u2'', role = ''user''\<rparr>"

text \<open>
  Three orders: a pending one of the customer \<open>u1\<close>, a shipped one of the same customer,
  and a pending guest order.
\<close>

definition shipped_order :: order where
  "shipped_order = placed (Some ''u1'') False
     \<lparr>oid := ''o2'', orderStatus := ''Shipped'', orderNumber := Some ''ORD261103008''\<rparr>"

definition guest_order :: order where
  "guest_order = placed None True\<lparr>oid := ''o3'', orderNumber := Some ''ORD261103009''\<rparr>"

definition order_book :: store where
  "order_book = rental_shop\<lparr>orders := [placed (Some ''u1'') False, shipped_order, guest_order]\<rparr>"

text \<open>
  C5. For a cancellation request on an existing order: when it succeeds, the requester is
  an admin or the owner of the order, the status was Pending or Confirmed, the status of
  the answered and stored order is Cancelled, an admin who sent no note leaves the note
  \<open>Order cancelled by admin\<close>, and a requester who is not an admin leaves the admin
  note as it was. With any other status, or for a requester who is neither, the request
  is answered with an error and the database is unchanged. An admin or the owner does
  cancel a valid Pending or Confirmed order.
\<close>

theorem cancellation_rules:
  "findOrder (orders st) i = Some d \<Longrightarrow>
     (cancelOrder e r i note st = (Inr d', st') \<longrightarrow>
        (role r = ''admin'' \<or> user d = Some (uid r))
        \<and> orderStatus d \<in> {''Pending'', ''Confirmed''}
        \<and> orderStatus d' = ''Cancelled''
        \<and> findOrder (orders st') i = Some d'
        \<and> (role r = ''admin'' \<and> \<not> truthy note \<longrightarrow> adminNotes d' = Some ''Order cancelled by admin'')
        \<and> (role r \<noteq> ''admin'' \<longrightarrow> adminNotes d' = adminNotes d))
   \<and> (orderStatus d \<notin> {''Pending'', ''Confirmed''} \<or> \<not> (role r = ''admin'' \<or> user d = Some (uid r)) \<longrightarrow>
        (\<exists>f. cancelOrder e r i note st = (Inl f, st)))
   \<and> ((role r = ''admin'' \<or> user d = Some (uid r)) \<and> orderStatus d \<in> {''Pending'', ''Confirmed''}
        \<and> validate_order d \<and> \<not> number_conflict (orders st) d \<longrightarrow>
        (\<exists>d' st'. cancelOrder e r i note st = (Inr d', st')))"
proof -
  assume f: "findOrder (orders st) i = Some d"
  have a: "(role r = ''admin'' \<or> user d = Some (uid r))
        \<and> orderStatus d \<in> {''Pending'', ''Confirmed''}
        \<and> orderStatus d' = ''Cancelled''
        \<and> findOrder (orders st') i = Some d'
        \<and> (role r = ''admin'' \<and> \<not> truthy note \<longrightarrow> adminNotes d' = Some ''Order cancelled by admin'')
        \<and> (role r \<noteq> ''admin'' \<longrightarrow> adminNotes d' = adminNotes d)"
    if c: "cancelOrder e r i note st = (Inr d', st')"
    using cancelOrder_Inr [OF f c] cancelled_by_fields [of r "note" d] by simp
  show ?thesis
    using a cancelOrder_refused [OF f, of r e "note"] cancelOrder_accepts [OF f, of r e "note"]
    by blast
qed

lemma owner_cancels:
  "cancelOrder shop_env customer ''p1'' None order_book
     = (Inr (placed (Some ''u1'') False\<lparr>orderStatus := ''Cancelled''\<rparr>),
        order_book\<lparr>orders := [placed (Some ''u1'') False\<lparr>orderStatus := ''Cancelled''\<rparr>,
                               shipped_order, guest_order]\<rparr>)"
  by code_simp

lemma admin_cancels:
  "cancelOrder shop_env shop_admin ''p1'' None order_book
     = (Inr (placed (Some ''u1'') False
               \<lparr>orderStatus := ''Cancelled'', adminNotes := Some ''Order cancelled by admin''\<rparr>),
        order_book\<lparr>orders := [placed (Some ''u1'') False
               \<lparr>orderStatus := ''Cancelled'', adminNotes := Some ''Order cancelled by admin''\<rparr>,
                               shipped_order, guest_order]\<rparr>)"
  by code_simp

lemma shipped_stays:
  "cancelOrder shop_env customer ''o2'' None order_book
     = (Inl (BadRequest ''Order cannot be cancelled in its current status''), order_book)"
  by code_simp

lemma stranger_denied:
  "cancelOrder shop_env stranger ''p1'' None order_book = (Inl (Forbidden ''Access denied''), order_book)"
  by code_simp

lemma order_book_finds:
  "findOrder (orders order_book) ''p1'' = Some (placed (Some ''u1'') False)"
  "findOrder (orders order_book) ''o2'' = Some shipped_order"
  "findOrder (orders order_book) ''o3'' = Some guest_order"
  by code_simp+

theorem cancellation_rules_witness:
  "findOrder (orders order_book) ''p1'' = Some (placed (Some ''u1'') False)
   \<and> cancelOrder shop_env customer ''p1'' None order_book
     = (Inr (placed (Some ''u1'') False\<lparr>orderStatus := ''Cancelled''\<rparr>),
        order_book\<lparr>orders := [placed (Some ''u1'') False\<lparr>orderStatus := ''Cancelled''\<rparr>,
                               shipped_order, guest_order]\<rparr>)
   \<and> orderStatus (placed (Some ''u1'') False) \<in> {''Pending'', ''Confirmed''}
   \<and> orderStatus (placed (Some ''u1'') False\<lparr>orderStatus := ''Cancelled''\<rparr>) = ''Cancelled''
   \<and> cancelOrder shop_env shop_admin ''p1'' None order_book
     = (Inr (placed (Some ''u1'') False
               \<lparr>orderStatus := ''Cancelled'', adminNotes := Some ''Order cancelled by admin''\<rparr>),
        order_book\<lparr>orders := [placed (Some ''u1'') False
               \<lparr>orderStatus := ''Cancelled'', adminNotes := Some ''Order cancelled by admin''\<rparr>,
                               shipped_order, guest_order]\<rparr>)
   \<and> orderStatus shipped_order = ''Shipped''
   \<and> (\<exists>f. cancelOrder shop_env customer ''o2'' None order_book = (Inl f, order_book))
   \<and> cancelOrder shop_env customer ''o2'' None order_book
     = (Inl (BadRequest ''Order cannot be cancelled in its current status''), order_book)
   \<and> cancelOrder shop_env stranger ''p1'' None order_book = (Inl (Forbidden ''Access denied''), order_book)"
proof -
  note t1 = cancellation_rules [OF order_book_finds(1), where e = shop_env and r = customer
      and d' = "placed (Some ''u1'') False\<lparr>orderStatus := ''Cancelled''\<rparr>"
      and st' = "order_book\<lparr>orders := [placed (Some ''u1'') False\<lparr>orderStatus := ''Cancelled''\<rparr>,
                               shipped_order, guest_order]\<rparr>"]
  from t1 owner_cancels
  have a: "orderStatus (placed (Some ''u1'') False) \<in> {''Pending'', ''Confirmed''}"
    "orderStatus (placed (Some ''u1'') False\<lparr>orderStatus := ''Cancelled''\<rparr>) = ''Cancelled''"
    by blast+
  have s: "orderStatus shipped_order = ''Shipped''"
    by (simp add: shipped_order_def)
  then have "orderStatus shipped_order \<notin> {''Pending'', ''Confirmed''}" by simp
  with cancellation_rules [OF order_book_finds(2), where e = shop_env and r = customer]
  have b: "\<exists>f. cancelOrder shop_env customer ''o2'' None order_book = (Inl f, order_book)"
    by blast
  from order_book_finds(1) owner_cancels a admin_cancels s b shipped_stays stranger_denied
  show ?thesis by blast
qed

lemma getOrder_guest:
  "findOrder (orders st) i = Some d \<Longrightarrow> user d = None \<Longrightarrow> role r \<noteq> ''admin'' \<Longrightarrow>
   getOrder r i st = Inl (ServerError ''Server error while fetching order'')"
  by (simp add: getOrder_def populateUser_def)

lemma cancelOrder_guest:
  "findOrder (orders st) i = Some d \<Longrightarrow> user d = None \<Longrightarrow> role r \<noteq> ''admin'' \<Longrightarrow>
   cancelOrder e r i note st = (Inl (ServerError ''Server error while cancelling order''), st)"
  by (simp add: cancelOrder_def)

lemma getOrder_admin:
  "findOrder (orders st) i = Some d \<Longrightarrow> user d = None \<Longrightarrow> role r = ''admin'' \<Longrightarrow>
   getOrder r i st = Inr d"
  by (simp add: getOrder_def populateUser_def)

text \<open>
  C10. A guest order has no user and carries the guest flag. For a guest order, a
  requester who is not an admin gets the 500 of the \<open>catch\<close> block from the get route and
  from the cancel route, not the 403 of the ownership check, and the database is
  unchanged; an admin gets the order from the get route and cancels it when it is valid
  and Pending or Confirmed.
\<close>

theorem guest_order_owner_check:
  "(createGuestOrder e body st0 = (Inr g, st1) \<longrightarrow> user g = None \<and> isGuestOrder g)
   \<and> (findOrder (orders st) i = Some d \<and> user d = None \<longrightarrow>
        (role r \<noteq> ''admin'' \<longrightarrow>
           getOrder r i st = Inl (ServerError ''Server error while fetching order'')
           \<and> cancelOrder e r i note st = (Inl (ServerError ''Server error while cancelling order''), st))
        \<and> (role r = ''admin'' \<longrightarrow>
           getOrder r i st = Inr d
           \<and> (orderStatus d \<in> {''Pending'', ''Confirmed''} \<and> validate_order d
                \<and> \<not> number_conflict (orders st) d \<longrightarrow>
               cancelOrder e r i note st
                 = (Inr (cancelled_by r note d),
                    st\<lparr>orders := upsertOrder (cancelled_by r note d) (orders st)\<rparr>))))"
  using createGuestOrder_Inr [of e body st0 g st1] getOrder_guest [of st i d r]
    cancelOrder_guest [of st i d r e "note"] getOrder_admin [of st i d r]
    cancelOrder_accepts [of st i d r e "note"]
  by blast

lemma guest_fetch:
  "getOrder customer ''o3'' order_book = Inl (ServerError ''Server error while fetching order'')"
  by code_simp

lemma guest_cancel:
  "cancelOrder shop_env customer ''o3'' None order_book
     = (Inl (ServerError ''Server error while cancelling order''), order_book)"
  by code_simp

lemma admin_fetch: "getOrder shop_admin ''o3'' order_book = Inr guest_order"
  by code_simp

lemma admin_guest_cancel:
  "cancelOrder shop_env shop_admin ''o3'' None order_book
     = (Inr (guest_order\<lparr>orderStatus := ''Cancelled'', adminNotes := Some ''Order cancelled by admin''\<rparr>),
        order_book\<lparr>orders := [placed (Some ''u1'') False, shipped_order,
           guest_order\<lparr>orderStatus := ''Cancelled'', adminNotes := Some ''Order cancelled by admin''\<rparr>]\<rparr>)"
  by code_simp

theorem guest_order_owner_check_witness:
  "findOrder (orders order_book) ''o3'' = Some guest_order \<and> user guest_order = None
   \<and> isGuestOrder guest_order \<and> role customer \<noteq> ''admin'' \<and> role shop_admin = ''admin''
   \<and> getOrder customer ''o3'' order_book = Inl (ServerError ''Server error while fetching order'')
   \<and> cancelOrder shop_env customer ''o3'' None order_book
     = (Inl (ServerError ''Server error while cancelling order''), order_book)
   \<and> getOrder shop_admin ''o3'' order_book = Inr guest_order
   \<and> cancelOrder shop_env shop_admin ''o3'' None order_book
     = (Inr (guest_order\<lparr>orderStatus := ''Cancelled'', adminNotes := Some ''Order cancelled by admin''\<rparr>),
        order_book\<lparr>orders := [placed (Some ''u1'') False, shipped_order,
           guest_order\<lparr>orderStatus := ''Cancelled'', adminNotes := Some ''Order cancelled by admin''\<rparr>]\<rparr>)"
proof -
  have g: "user guest_order = None" "isGuestOrder guest_order"
    by (simp_all add: guest_order_def placed_def)
  have r: "role customer \<noteq> ''admin''" "role shop_admin = ''admin''"
    by (simp_all add: customer_def shop_admin_def)
  from guest_order_owner_check [where st = order_book and i = "''o3''" and d = guest_order
      and r = customer and e = shop_env] order_book_finds(3) g(1) r(1)
  have a: "getOrder customer ''o3'' order_book = Inl (ServerError ''Server error while fetching order'')"
    "cancelOrder shop_env customer ''o3'' None order_book
     = (Inl (ServerError ''Server error while cancelling order''), order_book)"
    by blast+
  from guest_order_owner_check [where st = order_book and i = "''o3''" and d = guest_order
      and r = shop_admin and e = shop_env] order_book_finds(3) g(1) r(2)
  have b: "getOrder shop_admin ''o3'' order_book = Inr guest_order"
    by blast
  from order_book_finds(3) g r a b admin_guest_cancel show ?thesis by blast
qed

section \<open>Verification: the revenue of the statistics\<close>

text \<open>The revenue as the specification words it: delivered orders and paid orders.\<close>

definition revenue_as_specified :: "order list \<Rightarrow> number" where
  "revenue_as_specified ds =
     foldl num_add (Num 0) (map totalAmount
       (filter (\<lambda>d. orderStatus d = ''Delivered'' \<or> paymentStatus d = ''Paid'') ds))"

definition paid_book :: store where
  "paid_book = rental_shop\<lparr>orders := [placed (Some ''u1'') False\<lparr>paymentStatus := ''Paid''\<rparr>]\<rparr>"

lemma revenue_delivered_only:
  "list_all validate_order (orders st) \<Longrightarrow>
   totalRevenue (statsSummary st)
     = foldl num_add (Num 0)
         (map totalAmount (filter (\<lambda>d. orderStatus d = ''Delivered'') (orders st)))"
proof -
  assume v: "list_all validate_order (orders st)"
  have "filter (\<lambda>d. orderStatus d \<in> set [''Delivered'', ''Paid'']) (orders st)
      = filter (\<lambda>d. orderStatus d = ''Delivered'') (orders st)"
    using v by (intro filter_cong) (auto simp: list_all_iff validate_order_def)
  then show ?thesis
    by (simp add: statsSummary_def revenueData_def Let_def)
qed

text \<open>
  C6. The statistics do not count a paid order that is not delivered. For an order book
  with one valid order, Pending and Paid, of total 118.8, the route answers the revenue 0,
  where the sum over the orders that are Delivered or Paid is 118.8.
\<close>

theorem paid_order_not_in_revenue:
  "validate_order (placed (Some ''u1'') False\<lparr>paymentStatus := ''Paid''\<rparr>)
   \<and> totalRevenue (statsSummary paid_book) = Num 0
   \<and> revenue_as_specified (orders paid_book) = double (1188 / 10)"
  by code_simp

end
